theory Spec2Isabelle
  imports Main "HOL-Library.Sublist"
begin

section \<open>Roo Sniffer: the intercepting proxy of \<^verbatim>\<open>roo-sniffer/src\<close>\<close>

text \<open>
  The development follows \<^verbatim>\<open>proxy.ts\<close> (watch matcher, plain-HTTP forwarder, CONNECT
  dispatch, opaque tunnel, MITM sniffer) and \<^verbatim>\<open>certs.ts\<close> (certificate manager).

  A Node \<^verbatim>\<open>Buffer\<close> is a list of bytes; Isabelle's \<^typ>\<open>char\<close> is an 8-bit value, so a
  buffer is a \<^typ>\<open>string\<close>. A JavaScript string is a list of UTF-16 code units, each a
  natural number below 65536; \<^verbatim>\<open>s.length\<close> is the length of that list.
\<close>

type_synonym buffer = "char list"
type_synonym code_unit = nat
type_synonym jsstring = "code_unit list"

abbreviation str :: "string \<Rightarrow> jsstring" where
  "str s \<equiv> map of_char s"

subsection \<open>The string and buffer primitives the proxy calls\<close>

text \<open>\<^verbatim>\<open>s.startsWith(p)\<close>.\<close>

fun String_startsWith :: "'a list \<Rightarrow> 'a list \<Rightarrow> bool" where
  "String_startsWith s [] = True"
| "String_startsWith [] (p # ps) = False"
| "String_startsWith (c # cs) (p # ps) = (c = p \<and> String_startsWith cs ps)"

text \<open>\<^verbatim>\<open>s.indexOf(p)\<close>: the first position at which \<open>p\<close> occurs, \<open>None\<close> for \<open>-1\<close>.\<close>

fun String_indexOf :: "'a list \<Rightarrow> 'a list \<Rightarrow> nat option" where
  "String_indexOf [] p = (if p = [] then Some 0 else None)"
| "String_indexOf (c # cs) p =
     (if String_startsWith (c # cs) p then Some 0
      else map_option Suc (String_indexOf cs p))"

text \<open>\<^verbatim>\<open>s.includes(p)\<close>.\<close>

definition String_includes :: "'a list \<Rightarrow> 'a list \<Rightarrow> bool" where
  "String_includes s p = (String_indexOf s p \<noteq> None)"

text \<open>
  \<^verbatim>\<open>s.split(sep)\<close>: the pieces between the occurrences of \<open>sep\<close>, found left to right;
  always at least one piece when \<open>sep\<close> is not empty. With the empty separator the string
  is cut into its code units. The position of the next separator is read with
  \<^const>\<open>the\<close> only where \<^verbatim>\<open>indexOf\<close> has found one.
\<close>

function String_split :: "'a list \<Rightarrow> 'a list \<Rightarrow> 'a list list" where
  "String_split s sep =
     (if sep = [] then map (\<lambda>c. [c]) s
      else if String_indexOf s sep = None then [s]
      else take (the (String_indexOf s sep)) s #
           String_split (drop (the (String_indexOf s sep) + length sep) s) sep)"
  by pat_completeness auto
termination
proof (relation "measure (\<lambda>(s, sep). length s)")
  show "wf (measure (\<lambda>(s, sep). length s))" by simp
next
  fix s sep :: "'a list"
  assume sep: "sep \<noteq> []" and idx: "String_indexOf s sep \<noteq> None"
  from sep idx have "s \<noteq> []" by (cases s) auto
  with sep
  show "((drop (the (String_indexOf s sep) + length sep) s, sep), (s, sep))
          \<in> measure (\<lambda>(s, sep). length s)"
    by simp
qed

declare String_split.simps [simp del]

text \<open>
  \<^verbatim>\<open>s.toLowerCase()\<close>. The letters \<open>A\<close> to \<open>Z\<close> go to \<open>a\<close> to \<open>z\<close>; the case mappings of
  code units beyond ASCII are left out (every other code unit is kept), which is exact on
  ASCII text such as host names and header names.
\<close>

definition lower_unit :: "code_unit \<Rightarrow> code_unit" where
  "lower_unit c = (if 65 \<le> c \<and> c \<le> 90 then c + 32 else c)"

definition String_toLowerCase :: "jsstring \<Rightarrow> jsstring" where
  "String_toLowerCase s = map lower_unit s"

text \<open>
  \<^verbatim>\<open>s.trim()\<close> removes the white space and line terminators of ECMAScript from both
  ends.
\<close>

definition is_space :: "code_unit \<Rightarrow> bool" where
  "is_space c \<longleftrightarrow>
     (9 \<le> c \<and> c \<le> 13) \<or> c = 32 \<or> c = 160 \<or> c = 5760 \<or> (8192 \<le> c \<and> c \<le> 8202) \<or>
     c = 8232 \<or> c = 8233 \<or> c = 8239 \<or> c = 8287 \<or> c = 12288 \<or> c = 65279"

definition String_trim :: "jsstring \<Rightarrow> jsstring" where
  "String_trim s = rev (dropWhile is_space (rev (dropWhile is_space s)))"

text \<open>
  \<^verbatim>\<open>parseInt(s, 10)\<close>: leading white space is skipped, one sign is read, then the
  longest run of decimal digits; no digit at all gives \<^verbatim>\<open>NaN\<close>, which is \<open>None\<close> here.
  The result is an exact integer (a double is exact below \<open>2^53\<close>).
\<close>

definition is_digit :: "code_unit \<Rightarrow> bool" where
  "is_digit c \<longleftrightarrow> 48 \<le> c \<and> c \<le> 57"

definition digits_value :: "jsstring \<Rightarrow> nat" where
  "digits_value ds = foldl (\<lambda>acc c. 10 * acc + (c - 48)) 0 ds"

definition parseInt :: "jsstring \<Rightarrow> int option" where
  "parseInt s =
     (let S = dropWhile is_space s;
          negative = (S \<noteq> [] \<and> hd S = 45);
          S' = (if S \<noteq> [] \<and> (hd S = 43 \<or> hd S = 45) then tl S else S);
          Z = takeWhile is_digit S'
      in if Z = [] then None
         else Some (if negative then - int (digits_value Z) else int (digits_value Z)))"

text \<open>
  A value that may be \<^verbatim>\<open>undefined\<close> is an option; \<^verbatim>\<open>x || d\<close> on such a string takes
  \<open>d\<close> when \<open>x\<close> is \<^verbatim>\<open>undefined\<close> or the empty string. \<^verbatim>\<open>a[i]\<close> on an array is
  \<^verbatim>\<open>undefined\<close> out of range.
\<close>

fun or_default :: "jsstring option \<Rightarrow> jsstring \<Rightarrow> jsstring" where
  "or_default None d = d"
| "or_default (Some s) d = (if s = [] then d else s)"

definition array_get :: "'a list \<Rightarrow> nat \<Rightarrow> 'a option" where
  "array_get xs i = (if i < length xs then Some (xs ! i) else None)"

text \<open>The decimal text of an integer, as a template literal prints a port number.\<close>

fun dec_digits :: "nat \<Rightarrow> jsstring" where
  "dec_digits n = (if n < 10 then [48 + n] else dec_digits (n div 10) @ [48 + n mod 10])"

declare dec_digits.simps [simp del]

definition Number_toString :: "int \<Rightarrow> jsstring" where
  "Number_toString n = (if n < 0 then 45 # dec_digits (nat (- n)) else dec_digits (nat n))"

text \<open>\<^verbatim>\<open>n.toString(16)\<close> for a non-negative integer.\<close>

fun hex_digits :: "nat \<Rightarrow> jsstring" where
  "hex_digits n =
     (if n < 16 then [str ''0123456789abcdef'' ! n]
      else hex_digits (n div 16) @ [str ''0123456789abcdef'' ! (n mod 16)])"

declare hex_digits.simps [simp del]

text \<open>
  \<^verbatim>\<open>buf.slice(start, end)\<close>: a negative index counts from the end, every index is
  clamped to the buffer, and an end before the start gives the empty buffer.
\<close>

definition clamp_index :: "int \<Rightarrow> nat \<Rightarrow> nat" where
  "clamp_index i len = (if i < 0 then nat (max (int len + i) 0) else min (nat i) len)"

definition Buffer_slice :: "buffer \<Rightarrow> int \<Rightarrow> int \<Rightarrow> buffer" where
  "Buffer_slice buf start end' =
     (let s = clamp_index start (length buf); e = clamp_index end' (length buf)
      in take (e - s) (drop s buf))"

subsection \<open>Decoding UTF-8 (\<^verbatim>\<open>buf.toString('utf8')\<close>)\<close>

text \<open>
  The decoder never fails: an ill-formed sequence becomes U+FFFD (one per maximal
  subpart, the byte that broke the sequence being read again), and a code point above
  U+FFFF becomes a surrogate pair. \<open>Pending cp n lo hi\<close> is the state inside a sequence:
  the bits read so far, the number of continuation bytes still needed, and the range
  allowed for the next byte.
\<close>

datatype utf8_state = Idle | Pending nat nat nat nat

definition utf16_units :: "nat \<Rightarrow> jsstring" where
  "utf16_units cp =
     (if cp < 65536 then [cp]
      else [55296 + (cp - 65536) div 1024, 56320 + (cp - 65536) mod 1024])"

definition utf8_lead :: "nat \<Rightarrow> jsstring \<times> utf8_state" where
  "utf8_lead b =
     (if b \<le> 127 then ([b], Idle)
      else if 194 \<le> b \<and> b \<le> 223 then ([], Pending (b mod 32) 1 128 191)
      else if 224 \<le> b \<and> b \<le> 239 then
        ([], Pending (b mod 16) 2 (if b = 224 then 160 else 128) (if b = 237 then 159 else 191))
      else if 240 \<le> b \<and> b \<le> 244 then
        ([], Pending (b mod 8) 3 (if b = 240 then 144 else 128) (if b = 244 then 143 else 191))
      else ([65533], Idle))"

fun utf8_run :: "utf8_state \<Rightarrow> nat list \<Rightarrow> jsstring" where
  "utf8_run Idle [] = []"
| "utf8_run (Pending cp n lo hi) [] = [65533]"
| "utf8_run Idle (b # bs) = fst (utf8_lead b) @ utf8_run (snd (utf8_lead b)) bs"
| "utf8_run (Pending cp n lo hi) (b # bs) =
     (if b < lo \<or> hi < b then
        65533 # fst (utf8_lead b) @ utf8_run (snd (utf8_lead b)) bs
      else if n \<le> 1 then utf16_units (cp * 64 + b mod 64) @ utf8_run Idle bs
      else utf8_run (Pending (cp * 64 + b mod 64) (n - 1) 128 191) bs)"

definition utf8_decode :: "buffer \<Rightarrow> jsstring" where
  "utf8_decode buf = utf8_run Idle (map of_char buf)"

text \<open>
  Inside \<^verbatim>\<open>try { ... } catch\<close> the call is a value of a sum type, \<open>Inl\<close> standing for a
  thrown exception. \<open>Buffer_toString\<close> is the call on a buffer whose text the engine can
  hold: it returns the decoded text.
\<close>

datatype js_error = Error jsstring

definition Buffer_toString :: "buffer \<Rightarrow> js_error + jsstring" where
  "Buffer_toString buf = Inr (utf8_decode buf)"

text \<open>
  Node's \<^verbatim>\<open>toString\<close> on any buffer: a string holds at most
  \<^verbatim>\<open>buffer.constants.MAX_STRING_LENGTH\<close> code units (\<open>2^29 - 24\<close> on 64-bit builds), and
  decoding a longer text throws \<^verbatim>\<open>ERR_STRING_TOO_LONG\<close>. Ill-formed bytes never throw.
\<close>

definition MAX_STRING_LENGTH :: nat where
  "MAX_STRING_LENGTH = 536870888"

definition Buffer_toString_node :: "buffer \<Rightarrow> js_error + jsstring" where
  "Buffer_toString_node buf =
     (if MAX_STRING_LENGTH < length (utf8_decode buf)
      then Inl (Error (str ''ERR_STRING_TOO_LONG''))
      else Inr (utf8_decode buf))"

subsection \<open>Configuration (\<^verbatim>\<open>types.ts\<close>)\<close>

record SnifferConfig =
  port :: nat
  logFile :: jsstring
  watchDomains :: "jsstring list"
  verbose :: bool
  certDir :: jsstring

definition DEFAULT_CONFIG :: SnifferConfig where
  "DEFAULT_CONFIG =
     \<lparr>port = 8080, logFile = str ''roo_requests.log'',
      watchDomains = [str ''anthropic'', str ''openai'', str ''api.roo'',
                      str ''amazonaws'', str ''azure''],
      verbose = True, certDir = str ''.roo-sniffer-certs''\<rparr>"

subsection \<open>Watch matcher (\<^verbatim>\<open>ProxyServer.isWatchedDomain\<close>)\<close>

text \<open>\<^verbatim>\<open>this.config.watchDomains.some(domain => host.includes(domain))\<close>\<close>

definition isWatchedDomain :: "SnifferConfig \<Rightarrow> jsstring \<Rightarrow> bool" where
  "isWatchedDomain cfg h =
     list_ex (\<lambda>domain. String_includes h domain) (watchDomains cfg)"

subsection \<open>Request log entries and effects\<close>

type_synonym headers_object = "(jsstring \<times> jsstring) list"

text \<open>
  \<^verbatim>\<open>RequestLogEntry\<close> of \<^verbatim>\<open>types.ts\<close>; an optional field is an option. A headers object
  is an association list in insertion order; list-valued headers of Node play no part in
  the code below and are left out.
\<close>

record RequestLogEntry =
  timestamp :: jsstring
  "method" :: jsstring
  host :: jsstring
  path :: jsstring
  watched :: bool
  bodyPreview :: "jsstring option"
  headers :: "headers_object option"
  statusCode :: "nat option"
  responsePreview :: "jsstring option"

text \<open>
  The request-side preview both handlers build:
  \<^verbatim>\<open>try { const bodyText = body.toString('utf8');
        entry.bodyPreview = bodyText.length > 500
          ? bodyText.substring(0, 500) + '...' : bodyText;
      } catch { entry.bodyPreview = '<binary>'; }\<close>
\<close>

definition bodyPreviewOf :: "buffer \<Rightarrow> jsstring" where
  "bodyPreviewOf body =
     (case Buffer_toString body of
        Inr bodyText \<Rightarrow>
          (if length bodyText > 500 then take 500 bodyText @ str ''...'' else bodyText)
      | Inl e \<Rightarrow> str ''<binary>'')"

text \<open>
  The same block over Node's \<^verbatim>\<open>toString\<close> on any buffer; it is \<open>bodyPreviewOf\<close> on
  every body whose text fits a string.
\<close>

definition bodyPreviewOf_node :: "buffer \<Rightarrow> jsstring" where
  "bodyPreviewOf_node body =
     (case Buffer_toString_node body of
        Inr bodyText \<Rightarrow>
          (if length bodyText > 500 then take 500 bodyText @ str ''...'' else bodyText)
      | Inl e \<Rightarrow> str ''<binary>'')"

definition PREVIEW_METHODS :: "jsstring list" where
  "PREVIEW_METHODS = [str ''POST'', str ''PUT'', str ''PATCH'']"

subsection \<open>The certificate manager (\<^verbatim>\<open>certs.ts\<close>)\<close>

text \<open>
  RSA and X.509 are symbolic: a key pair is named by a number, a signature records the
  signing key and the certificate fields it was computed over, and a PEM text is what
  it encodes. Key generation and the clock are inputs of the functions that use them.
\<close>

datatype private_key = PrivateKey nat
datatype public_key = PublicKey nat

fun public_of :: "private_key \<Rightarrow> public_key" where
  "public_of (PrivateKey k) = PublicKey k"

datatype date = Instant nat | SetFullYearPlus date nat

datatype extension =
    basicConstraints (cA: bool)
  | keyUsage (keyCertSign: bool) (digitalSignature: bool) (cRLSign: bool) (keyEncipherment: bool)
  | extKeyUsage (serverAuth: bool)
  | subjectAltName (altNames: "(nat \<times> jsstring) list")
  | subjectKeyIdentifier

type_synonym attributes = "(jsstring \<times> jsstring) list"

record CertificateFields =
  publicKey :: "public_key option"
  serialNumber :: jsstring
  notBefore :: date
  notAfter :: date
  subject :: attributes
  issuer :: attributes
  extensions :: "extension list"

datatype signature = SHA256_RSA private_key CertificateFields

record Certificate = CertificateFields +
  signed :: "signature option"

text \<open>\<^verbatim>\<open>forge.pki.createCertificate()\<close>, given the time of the call.\<close>

definition createCertificate :: "nat \<Rightarrow> Certificate" where
  "createCertificate now =
     \<lparr>publicKey = None, serialNumber = str ''00'', notBefore = Instant now,
      notAfter = Instant now, subject = [], issuer = [], extensions = [], signed = None\<rparr>"

text \<open>\<^verbatim>\<open>cert.sign(key, forge.md.sha256.create())\<close> signs the fields as they are now.\<close>

definition sign :: "Certificate \<Rightarrow> private_key \<Rightarrow> Certificate" where
  "sign c signer = c\<lparr>signed := Some (SHA256_RSA signer (CertificateFields.truncate c))\<rparr>"

text \<open>
  \<^verbatim>\<open>parent.verify(child)\<close>: the child names the parent as issuer, and its signature is one
  over the child's present fields by the private key of the parent's public key.
\<close>

definition verify :: "Certificate \<Rightarrow> Certificate \<Rightarrow> bool" where
  "verify parent child =
     (issuer child = subject parent \<and>
      (case signed child of
         None \<Rightarrow> False
       | Some (SHA256_RSA signer tbs) \<Rightarrow>
           publicKey parent = Some (public_of signer) \<and> tbs = CertificateFields.truncate child))"

datatype pem = CertificatePem Certificate | PrivateKeyPem private_key | OtherText jsstring

definition certificateFromPem :: "pem \<Rightarrow> js_error + Certificate" where
  "certificateFromPem text =
     (case text of CertificatePem c \<Rightarrow> Inr c | _ \<Rightarrow> Inl (Error (str ''Invalid PEM'')))"

definition privateKeyFromPem :: "pem \<Rightarrow> js_error + private_key" where
  "privateKeyFromPem text =
     (case text of PrivateKeyPem k \<Rightarrow> Inr k | _ \<Rightarrow> Inl (Error (str ''Invalid PEM'')))"

record CertificateInfo =
  key :: pem
  cert :: pem

text \<open>
  The file system: the directories that exist and the content of each file.
  \<^verbatim>\<open>path.join(dir, name)\<close> puts a slash between the two (normalisation of the directory
  text is left out).
\<close>

record FileSystem =
  dirs :: "jsstring set"
  files :: "jsstring \<rightharpoonup> pem"

definition existsSync :: "FileSystem \<Rightarrow> jsstring \<Rightarrow> bool" where
  "existsSync fs p \<longleftrightarrow> p \<in> dirs fs \<or> files fs p \<noteq> None"

definition mkdirSync :: "FileSystem \<Rightarrow> jsstring \<Rightarrow> FileSystem" where
  "mkdirSync fs p = fs\<lparr>dirs := insert p (dirs fs)\<rparr>"

definition readFileSync :: "FileSystem \<Rightarrow> jsstring \<Rightarrow> js_error + pem" where
  "readFileSync fs p =
     (case files fs p of
        None \<Rightarrow> Inl (Error (if p \<in> dirs fs then str ''EISDIR'' else str ''ENOENT''))
      | Some text \<Rightarrow> Inr text)"

definition writeFileSync :: "FileSystem \<Rightarrow> jsstring \<Rightarrow> pem \<Rightarrow> js_error + FileSystem" where
  "writeFileSync fs p text =
     (if p \<in> dirs fs then Inl (Error (str ''EISDIR''))
      else Inr (fs\<lparr>files := (files fs)(p \<mapsto> text)\<rparr>))"

definition path_join :: "jsstring \<Rightarrow> jsstring \<Rightarrow> jsstring" where
  "path_join dir name = dir @ str ''/'' @ name"

definition CA_CERT_NAME :: jsstring where
  "CA_CERT_NAME = str ''roo-sniffer-ca''"

record CertificateManager =
  cm_certDir :: jsstring
  caCert :: "Certificate option"
  caKey :: "private_key option"
  certCache :: "jsstring \<rightharpoonup> CertificateInfo"

definition ensureCertDir :: "FileSystem \<Rightarrow> jsstring \<Rightarrow> FileSystem" where
  "ensureCertDir fs dir = (if \<not> existsSync fs dir then mkdirSync fs dir else fs)"

definition CA_ATTRS :: attributes where
  "CA_ATTRS =
     [(str ''commonName'', str ''Roo Sniffer CA''),
      (str ''organizationName'', str ''Roo Sniffer''),
      (str ''countryName'', str ''US'')]"

text \<open>
  \<^verbatim>\<open>generateCA\<close>, given the generated key pair and the time. The result is the file
  system after the writes that happened, with the manager or the exception of a write.
\<close>

definition generateCA ::
  "FileSystem \<Rightarrow> CertificateManager \<Rightarrow> private_key \<Rightarrow> nat \<Rightarrow>
     FileSystem \<times> (js_error + CertificateManager)" where
  "generateCA fs cm keys now =
     (let cert0 = createCertificate now;
          cert1 = cert0\<lparr>publicKey := Some (public_of keys), serialNumber := str ''01'',
                       notBefore := Instant now,
                       notAfter := SetFullYearPlus (Instant now) 10,
                       subject := CA_ATTRS, issuer := CA_ATTRS,
                       extensions := [basicConstraints True,
                                      keyUsage True True True False,
                                      subjectKeyIdentifier]\<rparr>;
          cert = sign cert1 keys;
          cm' = cm\<lparr>caCert := Some cert, caKey := Some keys\<rparr>;
          caCertPath = path_join (cm_certDir cm) (CA_CERT_NAME @ str ''.pem'');
          caKeyPath = path_join (cm_certDir cm) (CA_CERT_NAME @ str ''-key.pem'')
      in case writeFileSync fs caCertPath (CertificatePem cert) of
           Inl e \<Rightarrow> (fs, Inl e)
         | Inr fs1 \<Rightarrow>
             (case writeFileSync fs1 caKeyPath (PrivateKeyPem keys) of
                Inl e \<Rightarrow> (fs1, Inl e)
              | Inr fs2 \<Rightarrow> (fs2, Inr cm')))"

definition loadOrCreateCA ::
  "FileSystem \<Rightarrow> CertificateManager \<Rightarrow> private_key \<Rightarrow> nat \<Rightarrow>
     FileSystem \<times> (js_error + CertificateManager)" where
  "loadOrCreateCA fs cm keys now =
     (let caCertPath = path_join (cm_certDir cm) (CA_CERT_NAME @ str ''.pem'');
          caKeyPath = path_join (cm_certDir cm) (CA_CERT_NAME @ str ''-key.pem'')
      in if existsSync fs caCertPath \<and> existsSync fs caKeyPath then
           (case readFileSync fs caCertPath of
              Inl e \<Rightarrow> (fs, Inl e)
            | Inr certPem \<Rightarrow>
                (case readFileSync fs caKeyPath of
                   Inl e \<Rightarrow> (fs, Inl e)
                 | Inr keyPem \<Rightarrow>
                     (case certificateFromPem certPem of
                        Inl e \<Rightarrow> (fs, Inl e)
                      | Inr c \<Rightarrow>
                          (case privateKeyFromPem keyPem of
                             Inl e \<Rightarrow> (fs, Inl e)
                           | Inr k \<Rightarrow> (fs, Inr (cm\<lparr>caCert := Some c, caKey := Some k\<rparr>))))))
         else generateCA fs cm keys now)"

text \<open>The constructor: \<^verbatim>\<open>new CertificateManager(certDir)\<close>.\<close>

definition CertificateManager_new ::
  "FileSystem \<Rightarrow> jsstring \<Rightarrow> private_key \<Rightarrow> nat \<Rightarrow>
     FileSystem \<times> (js_error + CertificateManager)" where
  "CertificateManager_new fs dir keys now =
     loadOrCreateCA (ensureCertDir fs dir)
       \<lparr>cm_certDir = dir, caCert = None, caKey = None, certCache = Map.empty\<rparr> keys now"

definition generateHostCertificate ::
  "CertificateManager \<Rightarrow> jsstring \<Rightarrow> private_key \<Rightarrow> nat \<Rightarrow> js_error + CertificateInfo" where
  "generateHostCertificate cm hostname keys now =
     (case (caCert cm, caKey cm) of
        (Some ca, Some ca_key) \<Rightarrow>
          (let cert0 = createCertificate now;
               cert1 = cert0\<lparr>publicKey := Some (public_of keys),
                            serialNumber := hex_digits now,
                            notBefore := Instant now,
                            notAfter := SetFullYearPlus (Instant now) 1,
                            subject := [(str ''commonName'', hostname),
                                        (str ''organizationName'', str ''Roo Sniffer'')],
                            issuer := subject ca,
                            extensions := [basicConstraints False,
                                           keyUsage False True False True,
                                           extKeyUsage True,
                                           subjectAltName [(2, hostname)]]\<rparr>;
               cert = sign cert1 ca_key
           in Inr \<lparr>key = PrivateKeyPem keys, cert = CertificatePem cert\<rparr>)
      | _ \<Rightarrow> Inl (Error (str ''CA certificate not initialized'')))"

definition getCertificateForHost ::
  "CertificateManager \<Rightarrow> jsstring \<Rightarrow> private_key \<Rightarrow> nat \<Rightarrow>
     js_error + (CertificateInfo \<times> CertificateManager)" where
  "getCertificateForHost cm hostname keys now =
     (case certCache cm hostname of
        Some cached \<Rightarrow> Inr (cached, cm)
      | None \<Rightarrow>
          (case generateHostCertificate cm hostname keys now of
             Inl e \<Rightarrow> Inl e
           | Inr certInfo \<Rightarrow>
               Inr (certInfo, cm\<lparr>certCache := (certCache cm)(hostname \<mapsto> certInfo)\<rparr>)))"

subsection \<open>The proxy server (\<^verbatim>\<open>proxy.ts\<close>)\<close>

text \<open>
  An \<^verbatim>\<open>http.IncomingMessage\<close> as the handlers read it. \<^verbatim>\<open>obj[k] = v\<close> on a headers
  object replaces the value of a key that is there and appends a new key otherwise.
\<close>

record IncomingMessage =
  req_url :: "jsstring option"
  req_method :: "jsstring option"
  req_headers :: headers_object

fun object_set :: "headers_object \<Rightarrow> jsstring \<Rightarrow> jsstring \<Rightarrow> headers_object" where
  "object_set [] k v = [(k, v)]"
| "object_set ((k', v') # rest) k v =
     (if k' = k then (k, v) # rest else (k', v') # object_set rest k v)"

definition object_delete :: "headers_object \<Rightarrow> jsstring \<Rightarrow> headers_object" where
  "object_delete obj k = filter (\<lambda>kv. fst kv \<noteq> k) obj"

text \<open>
  The fields of a parsed \<^verbatim>\<open>URL\<close> that the forwarder reads. The parser \<^verbatim>\<open>new URL(text)\<close>
  belongs to Node; it is an argument of the forwarder, \<open>None\<close> standing for the
  \<^verbatim>\<open>TypeError\<close> it throws.
\<close>

record URL =
  url_hostname :: jsstring
  url_port :: jsstring
  url_pathname :: jsstring
  url_search :: jsstring

datatype port_value = PortNumber nat | PortText jsstring

record RequestOptions =
  opt_hostname :: jsstring
  opt_port :: port_value
  opt_path :: jsstring
  opt_method :: jsstring
  opt_headers :: headers_object

text \<open>
  What a handler does to the outside, in order: records handed to the logger and to the
  subscriber, the response to the client, the request sent upstream, and the writes on
  the two sockets of a tunnel.
\<close>

datatype effect =
    LogRequest RequestLogEntry
  | OnRequest RequestLogEntry
  | WriteHead nat headers_object
  | ResponseEnd jsstring
  | HttpRequest RequestOptions buffer
  | ClientWrite jsstring
  | ServerWrite buffer
  | NetConnect int jsstring
  | TlsServer CertificateInfo
  | TlsConnect jsstring int
  | Pipe
  | Uncaught js_error

record ProxyServer =
  config :: SnifferConfig
  certManager :: CertificateManager
  onRequest :: bool

definition CRLF :: jsstring where
  "CRLF = [13, 10]"

definition CONNECTION_ESTABLISHED :: jsstring where
  "CONNECTION_ESTABLISHED = str ''HTTP/1.1 200 Connection Established'' @ CRLF @ CRLF"

text \<open>\<^verbatim>\<open>this.logger.logRequest(entry); this.onRequest?.(entry);\<close>\<close>

definition emit :: "ProxyServer \<Rightarrow> RequestLogEntry \<Rightarrow> effect list" where
  "emit ps entry = LogRequest entry # (if onRequest ps then [OnRequest entry] else [])"

text \<open>The entry that \<^verbatim>\<open>handleRequest\<close> builds when the request body has ended.\<close>

definition handleRequest_entry ::
  "SnifferConfig \<Rightarrow> jsstring \<Rightarrow> IncomingMessage \<Rightarrow> buffer \<Rightarrow> RequestLogEntry" where
  "handleRequest_entry cfg now clientReq body =
     (let u = or_default (req_url clientReq) (str ''/'');
          h = or_default (map_of (req_headers clientReq) (str ''host'')) (str ''unknown'');
          m = or_default (req_method clientReq) (str ''GET'');
          isWatched = isWatchedDomain cfg h;
          entry = \<lparr>timestamp = now, method = m, host = h, path = u, watched = isWatched,
                   bodyPreview = None, headers = None, statusCode = None,
                   responsePreview = None\<rparr>;
          entry = (if isWatched \<and> m \<in> set PREVIEW_METHODS \<and> length body > 0
                   then entry\<lparr>bodyPreview := Some (bodyPreviewOf body)\<rparr> else entry);
          entry = (if verbose cfg then entry\<lparr>headers := Some (req_headers clientReq)\<rparr>
                   else entry)
      in entry)"

text \<open>
  The same entry over Node's \<^verbatim>\<open>toString\<close> on any buffer; it is \<open>handleRequest_entry\<close> on
  every body whose text fits a string.
\<close>

definition handleRequest_entry_node ::
  "SnifferConfig \<Rightarrow> jsstring \<Rightarrow> IncomingMessage \<Rightarrow> buffer \<Rightarrow> RequestLogEntry" where
  "handleRequest_entry_node cfg now clientReq body =
     (let u = or_default (req_url clientReq) (str ''/'');
          h = or_default (map_of (req_headers clientReq) (str ''host'')) (str ''unknown'');
          m = or_default (req_method clientReq) (str ''GET'');
          isWatched = isWatchedDomain cfg h;
          entry = \<lparr>timestamp = now, method = m, host = h, path = u, watched = isWatched,
                   bodyPreview = None, headers = None, statusCode = None,
                   responsePreview = None\<rparr>;
          entry = (if isWatched \<and> m \<in> set PREVIEW_METHODS \<and> length body > 0
                   then entry\<lparr>bodyPreview := Some (bodyPreviewOf_node body)\<rparr> else entry);
          entry = (if verbose cfg then entry\<lparr>headers := Some (req_headers clientReq)\<rparr>
                   else entry)
      in entry)"

text \<open>
  The \<^verbatim>\<open>end\<close> handler of \<^verbatim>\<open>handleRequest\<close>, up to the request sent upstream: the entry
  is logged, then the target is parsed, and a target that does not parse is answered
  with 400.
\<close>

definition handleRequest ::
  "ProxyServer \<Rightarrow> (jsstring \<Rightarrow> URL option) \<Rightarrow> jsstring \<Rightarrow> IncomingMessage \<Rightarrow> buffer list \<Rightarrow>
     effect list" where
  "handleRequest ps parseURL now clientReq bodyChunks =
     (let u = or_default (req_url clientReq) (str ''/'');
          h = or_default (map_of (req_headers clientReq) (str ''host'')) (str ''unknown'');
          m = or_default (req_method clientReq) (str ''GET'');
          body = concat bodyChunks;
          entry = handleRequest_entry (config ps) now clientReq body
      in emit ps entry @
         (case (if String_startsWith u (str ''http://'') \<or> String_startsWith u (str ''https://'')
                then parseURL u else parseURL (str ''http://'' @ h @ u)) of
            None \<Rightarrow>
              [WriteHead 400 [(str ''Content-Type'', str ''text/plain'')],
               ResponseEnd (str ''Bad Request'')]
          | Some targetUrl \<Rightarrow>
              [HttpRequest
                 \<lparr>opt_hostname = url_hostname targetUrl,
                  opt_port = (if url_port targetUrl = [] then PortNumber 80
                              else PortText (url_port targetUrl)),
                  opt_path = url_pathname targetUrl @ url_search targetUrl,
                  opt_method = m,
                  opt_headers = object_delete (req_headers clientReq) (str ''proxy-connection'')\<rparr>
                 body]))"

text \<open>
  \<^verbatim>\<open>tunnelHttps\<close> opens the connection; when it is established the client is told so,
  \<open>head\<close> is written upstream and the two sockets are piped, after which every chunk of
  the client is written upstream.
\<close>

definition tunnelHttps :: "jsstring \<Rightarrow> int \<Rightarrow> effect list" where
  "tunnelHttps hostname p = [NetConnect p hostname]"

definition tunnelHttps_onConnect :: "buffer \<Rightarrow> effect list" where
  "tunnelHttps_onConnect head = [ClientWrite CONNECTION_ESTABLISHED, ServerWrite head, Pipe]"

definition pipe_onData :: "buffer \<Rightarrow> effect list" where
  "pipe_onData chunk = [ServerWrite chunk]"

text \<open>
  \<^verbatim>\<open>interceptHttps\<close> up to the registration of the handlers: the leaf certificate is
  fetched, the client is told the tunnel stands, its socket becomes a TLS server and a
  TLS connection to the real host is opened. The session starts with the empty
  \<^verbatim>\<open>clientBuffer\<close>; \<open>head\<close> is not read.
\<close>

definition interceptHttps ::
  "ProxyServer \<Rightarrow> jsstring \<Rightarrow> int \<Rightarrow> buffer \<Rightarrow> private_key \<Rightarrow> nat \<Rightarrow>
     js_error + (effect list \<times> buffer \<times> ProxyServer)" where
  "interceptHttps ps hostname p head keys now_ms =
     (case getCertificateForHost (certManager ps) hostname keys now_ms of
        Inl e \<Rightarrow> Inl e
      | Inr (certInfo, cm) \<Rightarrow>
          Inr ([ClientWrite CONNECTION_ESTABLISHED, TlsServer certInfo, TlsConnect hostname p],
               [], ps\<lparr>certManager := cm\<rparr>))"

text \<open>The header loop of the sniffer, over \<^verbatim>\<open>lines[1]\<close>, \<^verbatim>\<open>lines[2]\<close>, ...\<close>

definition extractHeaders :: "jsstring list \<Rightarrow> headers_object" where
  "extractHeaders lines =
     foldl (\<lambda>hs line.
              case String_indexOf line (str '':'') of
                None \<Rightarrow> hs
              | Some colonIdx \<Rightarrow>
                  object_set hs (String_toLowerCase (String_trim (take colonIdx line)))
                    (String_trim (drop (colonIdx + 1) line)))
       [] (drop 1 lines)"

text \<open>The entry the sniffer builds for a complete request.\<close>

definition interceptedEntry ::
  "SnifferConfig \<Rightarrow> jsstring \<Rightarrow> jsstring \<Rightarrow> jsstring \<Rightarrow> jsstring \<Rightarrow> headers_object \<Rightarrow> buffer \<Rightarrow>
     RequestLogEntry" where
  "interceptedEntry cfg now hostname m p hs body =
     (let entry = \<lparr>timestamp = now, method = m, host = hostname, path = p, watched = True,
                   bodyPreview = None, headers = None, statusCode = None,
                   responsePreview = None\<rparr>;
          entry = (if m \<in> set PREVIEW_METHODS \<and> length body > 0
                   then entry\<lparr>bodyPreview := Some (bodyPreviewOf body)\<rparr> else entry);
          entry = (if verbose cfg then entry\<lparr>headers := Some hs\<rparr> else entry)
      in entry)"

text \<open>The same entry over Node's \<^verbatim>\<open>toString\<close> on any buffer.\<close>

definition interceptedEntry_node ::
  "SnifferConfig \<Rightarrow> jsstring \<Rightarrow> jsstring \<Rightarrow> jsstring \<Rightarrow> jsstring \<Rightarrow> headers_object \<Rightarrow> buffer \<Rightarrow>
     RequestLogEntry" where
  "interceptedEntry_node cfg now hostname m p hs body =
     (let entry = \<lparr>timestamp = now, method = m, host = hostname, path = p, watched = True,
                   bodyPreview = None, headers = None, statusCode = None,
                   responsePreview = None\<rparr>;
          entry = (if m \<in> set PREVIEW_METHODS \<and> length body > 0
                   then entry\<lparr>bodyPreview := Some (bodyPreviewOf_node body)\<rparr> else entry);
          entry = (if verbose cfg then entry\<lparr>headers := Some hs\<rparr> else entry)
      in entry)"

text \<open>
  The \<^verbatim>\<open>data\<close> handler of the client's TLS socket: from the buffer before the chunk to
  the buffer after it and the effects. The header end is a position in the decoded text
  and is used as a position in the bytes, as the source does. A \<^verbatim>\<open>Content-Length\<close>
  that is \<^verbatim>\<open>NaN\<close> makes the comparison false. The handler looks for one request and
  then forwards the chunk.
\<close>

definition tls_onData ::
  "ProxyServer \<Rightarrow> jsstring \<Rightarrow> jsstring \<Rightarrow> buffer \<Rightarrow> buffer \<Rightarrow> buffer \<times> effect list" where
  "tls_onData ps hostname now clientBuffer0 chunk =
     (let clientBuffer = clientBuffer0 @ chunk;
          requestStr = utf8_decode clientBuffer
      in case String_indexOf requestStr (CRLF @ CRLF) of
           None \<Rightarrow> (clientBuffer, [ServerWrite chunk])
         | Some headerEnd \<Rightarrow>
             (let headerPart = take headerEnd requestStr;
                  lines = String_split headerPart CRLF
              in if length lines > 0 then
                   (let requestLine = String_split (lines ! 0) (str '' '');
                        m = or_default (array_get requestLine 0) (str ''UNKNOWN'');
                        p = or_default (array_get requestLine 1) (str ''/'');
                        hs = extractHeaders lines;
                        contentLength =
                          parseInt (or_default (map_of hs (str ''content-length'')) (str ''0''));
                        bodyStart = int headerEnd + 4;
                        currentBodyLength = int (length clientBuffer) - bodyStart
                    in case contentLength of
                         None \<Rightarrow> (clientBuffer, [ServerWrite chunk])
                       | Some contentLength \<Rightarrow>
                           if currentBodyLength \<ge> contentLength then
                             (let body = Buffer_slice clientBuffer bodyStart
                                           (bodyStart + contentLength);
                                  entry = interceptedEntry (config ps) now hostname m p hs body
                              in (Buffer_slice clientBuffer (bodyStart + contentLength)
                                    (int (length clientBuffer)),
                                  emit ps entry @ [ServerWrite chunk]))
                           else (clientBuffer, [ServerWrite chunk]))
                 else (clientBuffer, [ServerWrite chunk])))"

text \<open>A session: the chunks the client sends, each with the time it arrives.\<close>

fun tls_session ::
  "ProxyServer \<Rightarrow> jsstring \<Rightarrow> buffer \<Rightarrow> (jsstring \<times> buffer) list \<Rightarrow> buffer \<times> effect list" where
  "tls_session ps hostname clientBuffer [] = (clientBuffer, [])"
| "tls_session ps hostname clientBuffer ((now, chunk) # rest) =
     (let step = tls_onData ps hostname now clientBuffer chunk;
          more = tls_session ps hostname (fst step) rest
      in (fst more, snd step @ snd more))"

text \<open>
  \<^verbatim>\<open>handleConnect\<close>: the target is cut at its colons, the CONNECT entry is emitted, and
  the connection is intercepted or tunnelled. The result names the mode the connection
  is left in: an intercepted session with its buffer, or a tunnel that holds \<open>head\<close>
  until the upstream connection stands.
\<close>

datatype connect_mode =
    Intercepted jsstring buffer
  | Tunnelled buffer
  | Crashed

definition handleConnect ::
  "ProxyServer \<Rightarrow> jsstring \<Rightarrow> private_key \<Rightarrow> nat \<Rightarrow> IncomingMessage \<Rightarrow> buffer \<Rightarrow>
     effect list \<times> connect_mode \<times> ProxyServer" where
  "handleConnect ps now keys now_ms req head =
     (let parts = String_split (or_default (req_url req) []) (str '':'');
          hostname = parts ! 0;
          portStr = array_get parts 1;
          parsed = parseInt (case portStr of None \<Rightarrow> str ''undefined'' | Some t \<Rightarrow> t);
          p = (case parsed of None \<Rightarrow> 443 | Some n \<Rightarrow> if n = 0 then 443 else n);
          isWatched = isWatchedDomain (config ps) hostname;
          entry = \<lparr>timestamp = now, method = str ''CONNECT'', host = hostname,
                   path = str '':'' @ Number_toString p, watched = isWatched,
                   bodyPreview = None, headers = None, statusCode = None,
                   responsePreview = None\<rparr>
      in if isWatched then
           (case interceptHttps ps hostname p head keys now_ms of
              Inl e \<Rightarrow> (emit ps entry @ [Uncaught e], Crashed, ps)
            | Inr (effects, clientBuffer, ps') \<Rightarrow>
                (emit ps entry @ effects, Intercepted hostname clientBuffer, ps'))
         else (emit ps entry @ tunnelHttps hostname p, Tunnelled head, ps))"

text \<open>The bytes written to the upstream socket by a run of effects.\<close>

fun upstream_bytes :: "effect list \<Rightarrow> buffer" where
  "upstream_bytes [] = []"
| "upstream_bytes (ServerWrite b # rest) = b @ upstream_bytes rest"
| "upstream_bytes (e # rest) = upstream_bytes rest"

text \<open>The records handed to the logger by a run of effects, in order.\<close>

fun logged :: "effect list \<Rightarrow> RequestLogEntry list" where
  "logged [] = []"
| "logged (LogRequest e # rest) = e # logged rest"
| "logged (e # rest) = logged rest"

text \<open>
  A CONNECT followed by the chunks the client sends once the tunnel stands (for the
  opaque tunnel: once the upstream connection is established).
\<close>

definition connect_then_data ::
  "ProxyServer \<Rightarrow> jsstring \<Rightarrow> private_key \<Rightarrow> nat \<Rightarrow> IncomingMessage \<Rightarrow> buffer \<Rightarrow>
     (jsstring \<times> buffer) list \<Rightarrow> effect list" where
  "connect_then_data ps now keys now_ms req head chunks =
     (case handleConnect ps now keys now_ms req head of
        (effects, Intercepted hostname clientBuffer, ps') \<Rightarrow>
          effects @ snd (tls_session ps' hostname clientBuffer chunks)
      | (effects, Tunnelled pending, ps') \<Rightarrow>
          effects @ tunnelHttps_onConnect pending @ concat (map (\<lambda>c. pipe_onData (snd c)) chunks)
      | (effects, Crashed, ps') \<Rightarrow> effects)"

subsection \<open>Certificate managers that can arise\<close>

text \<open>
  The managers are those the constructor returns, over any disk, and those reached from
  them by \<^verbatim>\<open>getCertificateForHost\<close>.
\<close>

inductive_set managers :: "CertificateManager set" where
  constructed:
    "CertificateManager_new fs dir keys now = (fs', Inr cm) \<Longrightarrow> cm \<in> managers"
| leaf_issued:
    "cm \<in> managers \<Longrightarrow>
     getCertificateForHost cm hostname keys now = Inr (certInfo, cm') \<Longrightarrow> cm' \<in> managers"

text \<open>
  What holds of the leaf certificate handed out for a host name by a manager with the CA
  certificate \<open>ca\<close> and the CA key \<open>ca_key\<close>.
\<close>

definition leaf_for ::
  "Certificate \<Rightarrow> private_key \<Rightarrow> jsstring \<Rightarrow> CertificateInfo \<Rightarrow> bool" where
  "leaf_for ca ca_key hostname certInfo \<longleftrightarrow>
     (\<exists>leaf k. certInfo = \<lparr>key = PrivateKeyPem k, cert = CertificatePem leaf\<rparr> \<and>
        publicKey leaf = Some (public_of k) \<and>
        map_of (subject leaf) (str ''commonName'') = Some hostname \<and>
        subjectAltName [(2, hostname)] \<in> set (extensions leaf) \<and>
        basicConstraints False \<in> set (extensions leaf) \<and>
        extKeyUsage True \<in> set (extensions leaf) \<and>
        issuer leaf = subject ca \<and>
        signed leaf = Some (SHA256_RSA ca_key (CertificateFields.truncate leaf)))"

text \<open>
  The CA files of a directory are coherent when, if both exist, they hold a certificate
  and the private key of its public key; that is how \<^verbatim>\<open>generateCA\<close> writes them, and
  \<^verbatim>\<open>loadOrCreateCA\<close> does not check it.
\<close>

definition coherent_CA_files :: "FileSystem \<Rightarrow> jsstring \<Rightarrow> bool" where
  "coherent_CA_files fs dir \<longleftrightarrow>
     (existsSync fs (path_join dir (CA_CERT_NAME @ str ''.pem'')) \<and>
      existsSync fs (path_join dir (CA_CERT_NAME @ str ''-key.pem'')) \<longrightarrow>
      (\<exists>c k. files fs (path_join dir (CA_CERT_NAME @ str ''.pem'')) = Some (CertificatePem c) \<and>
             files fs (path_join dir (CA_CERT_NAME @ str ''-key.pem'')) = Some (PrivateKeyPem k) \<and>
             publicKey c = Some (public_of k)))"

subsection \<open>Concrete data used below\<close>

definition empty_disk :: FileSystem where
  "empty_disk = \<lparr>dirs = {}, files = Map.empty\<rparr>"

text \<open>The disk after a first start on the empty disk, which generates the CA.\<close>

definition disk_with_CA :: FileSystem where
  "disk_with_CA =
     fst (CertificateManager_new empty_disk (str ''.roo-sniffer-certs'') (PrivateKey 1) 1000)"

text \<open>The manager of that first start.\<close>

definition example_manager :: CertificateManager where
  "example_manager =
     \<lparr>cm_certDir = str ''.roo-sniffer-certs'',
      caCert = Some (sign ((createCertificate 1000)
                 \<lparr>publicKey := Some (public_of (PrivateKey 1)), serialNumber := str ''01'',
                  notBefore := Instant 1000,
                  notAfter := SetFullYearPlus (Instant 1000) 10,
                  subject := CA_ATTRS, issuer := CA_ATTRS,
                  extensions := [basicConstraints True, keyUsage True True True False,
                                 subjectKeyIdentifier]\<rparr>) (PrivateKey 1)),
      caKey = Some (PrivateKey 1), certCache = Map.empty\<rparr>"

text \<open>
  The disk of the first start with another private key written over the key file, and
  the manager a start on that disk returns.
\<close>

definition disk_mismatched :: FileSystem where
  "disk_mismatched =
     disk_with_CA\<lparr>files := (files disk_with_CA)
       (path_join (str ''.roo-sniffer-certs'') (CA_CERT_NAME @ str ''-key.pem'') \<mapsto>
          PrivateKeyPem (PrivateKey 7))\<rparr>"

definition mismatched_manager :: CertificateManager where
  "mismatched_manager = example_manager\<lparr>caKey := Some (PrivateKey 7)\<rparr>"

definition example_server :: ProxyServer where
  "example_server =
     \<lparr>config = DEFAULT_CONFIG, certManager = example_manager, onRequest = True\<rparr>"

definition CR_LF :: buffer where
  "CR_LF = [CHR 0x0D, CHR 0x0A]"

text \<open>Two requests without a body, sent back to back.\<close>

definition request_a :: buffer where
  "request_a = ''GET /a HTTP/1.1'' @ CR_LF @ ''Content-Length: 0'' @ CR_LF @ CR_LF"

definition request_b :: buffer where
  "request_b = ''GET /b HTTP/1.1'' @ CR_LF @ ''Content-Length: 0'' @ CR_LF @ CR_LF"

definition pipelined_requests :: buffer where
  "pipelined_requests = request_a @ request_b"

text \<open>A request line of two tokens, and a POST whose body is the text \<open><binary>\<close>.\<close>

definition request_short :: buffer where
  "request_short = ''GET /foo'' @ CR_LF @ CR_LF"

definition request_binary :: buffer where
  "request_binary =
     ''POST /v1/m HTTP/1.1'' @ CR_LF @ ''Content-Length: 8'' @ CR_LF @ CR_LF @ ''<binary>''"




section \<open>Properties\<close>

subsection \<open>String primitives\<close>

lemma String_startsWith_iff: "String_startsWith s p \<longleftrightarrow> prefix p s"
  by (induction s p rule: String_startsWith.induct) auto

lemma String_indexOf_None_iff: "String_indexOf s p = None \<longleftrightarrow> \<not> sublist p s"
proof (induction s)
  case Nil
  then show ?case by simp
next
  case (Cons c cs)
  then show ?case
    by (auto simp: String_startsWith_iff sublist_Cons_right)
qed

lemma String_includes_iff: "String_includes s p \<longleftrightarrow> (\<exists>ps ss. s = ps @ p @ ss)"
  by (simp add: String_includes_def String_indexOf_None_iff sublist_def)

subsection \<open>Watch matcher\<close>

text \<open>
  C1 (as amended). The matcher answers true exactly when some watch domain occurs in the
  host name as it was given: \<^verbatim>\<open>includes\<close> compares code units, and neither the host nor
  the domains are lowercased.
\<close>

theorem isWatchedDomain_iff_substring:
  "isWatchedDomain cfg h \<longleftrightarrow>
     (\<exists>domain \<in> set (watchDomains cfg). \<exists>ps ss. h = ps @ domain @ ss)"
  by (simp add: isWatchedDomain_def list_ex_iff String_includes_iff)

theorem isWatchedDomain_iff_substring_witness:
  "isWatchedDomain DEFAULT_CONFIG (str ''api.anthropic.com'') \<and>
   (\<exists>domain \<in> set (watchDomains DEFAULT_CONFIG).
      \<exists>ps ss. str ''api.anthropic.com'' = ps @ domain @ ss)"
proof -
  have "isWatchedDomain DEFAULT_CONFIG (str ''api.anthropic.com'')"
    by (simp add: isWatchedDomain_def DEFAULT_CONFIG_def String_includes_def)
  with isWatchedDomain_iff_substring [of DEFAULT_CONFIG "str ''api.anthropic.com''"]
  show ?thesis by simp
qed

text \<open>
  C1, the claim as written, fails: \<open>anthropic\<close> occurs in the lowercased host name,
  and the matcher still answers false for the upper-case host.
\<close>

theorem isWatchedDomain_case_counterexample:
  "String_includes (String_toLowerCase (str ''API.ANTHROPIC.COM'')) (str ''anthropic'') \<and>
   \<not> isWatchedDomain (DEFAULT_CONFIG\<lparr>watchDomains := [str ''anthropic'']\<rparr>)
       (str ''API.ANTHROPIC.COM'')"
  by (simp add: isWatchedDomain_def DEFAULT_CONFIG_def String_includes_def
      String_toLowerCase_def lower_unit_def)

subsection \<open>The UTF-8 decoder\<close>







lemma utf8_lead_ascii: "b \<le> 127 \<Longrightarrow> utf8_lead b = ([b], Idle)"
  by (simp add: utf8_lead_def)





lemma utf8_run_Idle_Cons:
  "utf8_run Idle (b # bs) = fst (utf8_lead b) @ utf8_run (snd (utf8_lead b)) bs"
  by simp





lemma utf8_run_ascii:
  "\<forall>b \<in> set bs. b < 128 \<Longrightarrow> utf8_run Idle bs = bs"
proof (induction bs)
  case Nil
  show ?case by simp
next
  case (Cons b bs)
  then have "b \<le> 127" and rest: "\<forall>b \<in> set bs. b < 128" by simp_all
  then have "utf8_run Idle (b # bs) = b # utf8_run Idle bs"
    by (simp only: utf8_run_Idle_Cons utf8_lead_ascii fst_conv snd_conv append.simps)
  with Cons.IH [OF rest] show ?case by simp
qed

lemma utf8_decode_ascii:
  "\<forall>b \<in> set body. (of_char b :: nat) < 128 \<Longrightarrow> utf8_decode body = str body"
  by (simp add: utf8_decode_def utf8_run_ascii del: utf8_run.simps)




subsection \<open>Body previews\<close>


lemma handleRequest_entry_fields:
  "method (handleRequest_entry cfg now clientReq body) =
     or_default (req_method clientReq) (str ''GET'')"
  "host (handleRequest_entry cfg now clientReq body) =
     or_default (map_of (req_headers clientReq) (str ''host'')) (str ''unknown'')"
  "path (handleRequest_entry cfg now clientReq body) = or_default (req_url clientReq) (str ''/'')"
  "watched (handleRequest_entry cfg now clientReq body) =
     isWatchedDomain cfg
       (or_default (map_of (req_headers clientReq) (str ''host'')) (str ''unknown''))"
  by (simp_all add: handleRequest_entry_def Let_def)




lemma interceptedEntry_fields [simp]:
  "method (interceptedEntry cfg now hostname m p hs body) = m"
  "host (interceptedEntry cfg now hostname m p hs body) = hostname"
  "path (interceptedEntry cfg now hostname m p hs body) = p"
  "watched (interceptedEntry cfg now hostname m p hs body)"
  by (simp_all add: interceptedEntry_def Let_def)





lemma bodyPreviewOf_node_fits:
  "length (utf8_decode body) \<le> MAX_STRING_LENGTH \<Longrightarrow> bodyPreviewOf_node body = bodyPreviewOf body"
  by (simp add: bodyPreviewOf_node_def bodyPreviewOf_def Buffer_toString_node_def
      Buffer_toString_def)







lemma interceptedEntry_node_fields [simp]:
  "method (interceptedEntry_node cfg now hostname m p hs body) = m"
  "watched (interceptedEntry_node cfg now hostname m p hs body)"
  by (simp_all add: interceptedEntry_node_def Let_def)

text \<open>On a body whose text fits a string the two readings of each entry agree.\<close>

lemma handleRequest_entry_node_fits:
  assumes "length (utf8_decode body) \<le> MAX_STRING_LENGTH"
  shows "handleRequest_entry_node cfg now clientReq body =
           handleRequest_entry cfg now clientReq body"
  unfolding handleRequest_entry_node_def handleRequest_entry_def
    bodyPreviewOf_node_fits [OF assms]
  by (rule refl)

lemma interceptedEntry_node_fits:
  assumes "length (utf8_decode body) \<le> MAX_STRING_LENGTH"
  shows "interceptedEntry_node cfg now hostname m p hs body =
           interceptedEntry cfg now hostname m p hs body"
  unfolding interceptedEntry_node_def interceptedEntry_def bodyPreviewOf_node_fits [OF assms]
  by (rule refl)



subsection \<open>The sniffer\<close>

lemma String_split_nonempty: "sep \<noteq> [] \<Longrightarrow> String_split s sep \<noteq> []"
  by (subst String_split.simps) simp

lemma String_split_None:
  "sep \<noteq> [] \<Longrightarrow> String_indexOf s sep = None \<Longrightarrow> String_split s sep = [s]"
  by (subst String_split.simps) simp

lemma String_split_Some:
  "sep \<noteq> [] \<Longrightarrow> String_indexOf s sep = Some i \<Longrightarrow>
   String_split s sep = take i s # String_split (drop (i + length sep) s) sep"
  by (subst String_split.simps) simp

lemma String_indexOf_unit:
  "String_indexOf s [c] =
     (if c \<in> set s then Some (length (takeWhile (\<lambda>x. x \<noteq> c) s)) else None)"
  by (induction s) auto

lemma String_split_unit_first:
  "String_split s [c] ! 0 = takeWhile (\<lambda>x. x \<noteq> c) s"
proof (cases "c \<in> set s")
  case True
  then have "String_indexOf s [c] = Some (length (takeWhile (\<lambda>x. x \<noteq> c) s))"
    by (simp add: String_indexOf_unit)
  then have "String_split s [c] ! 0 = take (length (takeWhile (\<lambda>x. x \<noteq> c) s)) s"
    by (subst String_split.simps) simp
  then show ?thesis by (simp add: takeWhile_eq_take [symmetric])
next
  case False
  then have "String_indexOf s [c] = None" by (simp add: String_indexOf_unit)
  then have sp: "String_split s [c] = [s]" by (simp add: String_split_None)
  from False have tw: "takeWhile (\<lambda>x. x \<noteq> c) s = s"
    by (intro takeWhile_eq_all_conv [THEN iffD2]) auto
  show ?thesis unfolding sp tw by simp
qed

lemma logged_append: "logged (xs @ ys) = logged xs @ logged ys"
  by (induction xs rule: logged.induct) simp_all

lemma upstream_bytes_append: "upstream_bytes (xs @ ys) = upstream_bytes xs @ upstream_bytes ys"
  by (induction xs rule: upstream_bytes.induct) simp_all

lemma logged_emit: "logged (emit ps e) = [e]"
  by (simp add: emit_def)

lemma upstream_bytes_emit: "upstream_bytes (emit ps e) = []"
  by (simp add: emit_def)

lemma tls_onData_no_header:
  assumes "String_indexOf (utf8_decode (buf @ chunk)) (CRLF @ CRLF) = None"
  shows "tls_onData ps hostname now buf chunk = (buf @ chunk, [ServerWrite chunk])"
  using assms by (simp add: tls_onData_def)

lemma tls_onData_complete:
  assumes he: "String_indexOf (utf8_decode (buf @ chunk)) (CRLF @ CRLF) = Some headerEnd"
    and ln: "lines = String_split (take headerEnd (utf8_decode (buf @ chunk))) CRLF"
    and cl: "parseInt (or_default (map_of (extractHeaders lines) (str ''content-length''))
               (str ''0'')) = Some n"
    and enough: "n \<le> int (length (buf @ chunk)) - (int headerEnd + 4)"
  shows "tls_onData ps hostname now buf chunk =
           (Buffer_slice (buf @ chunk) (int headerEnd + 4 + n) (int (length (buf @ chunk))),
            emit ps (interceptedEntry (config ps) now hostname
                       (or_default (array_get (String_split (lines ! 0) (str '' '')) 0)
                          (str ''UNKNOWN''))
                       (or_default (array_get (String_split (lines ! 0) (str '' '')) 1)
                          (str ''/''))
                       (extractHeaders lines)
                       (Buffer_slice (buf @ chunk) (int headerEnd + 4) (int headerEnd + 4 + n)))
            @ [ServerWrite chunk])"
proof -
  have "lines \<noteq> []" unfolding ln by (rule String_split_nonempty) (simp add: CRLF_def)
  then have len: "0 < length lines" by simp
  show ?thesis
    unfolding tls_onData_def Let_def he option.case ln [symmetric] cl
    using len enough by simp
qed

lemma tls_onData_at_most_one:
  "length (logged (snd (tls_onData ps hostname now buf chunk))) \<le> 1"
  by (simp add: tls_onData_def Let_def logged_append logged_emit split: option.split)

lemma tls_onData_upstream: "upstream_bytes (snd (tls_onData ps hostname now buf chunk)) = chunk"
  by (simp add: tls_onData_def Let_def upstream_bytes_append upstream_bytes_emit
      split: option.split)

lemma tls_session_upstream:
  "upstream_bytes (snd (tls_session ps hostname buf chunks)) = concat (map snd chunks)"
  by (induction chunks arbitrary: buf)
     (auto simp: Let_def upstream_bytes_append tls_onData_upstream)

lemma tls_onData_host:
  "e \<in> set (logged (snd (tls_onData ps hostname now buf chunk))) \<Longrightarrow> host e = hostname"
  by (auto simp: tls_onData_def Let_def logged_append logged_emit split: option.splits if_splits)

lemma tls_session_host:
  "e \<in> set (logged (snd (tls_session ps hostname buf chunks))) \<Longrightarrow> host e = hostname"
  by (induction chunks arbitrary: buf)
     (auto simp: Let_def logged_append dest: tls_onData_host)

subsection \<open>The sniffer on concrete requests\<close>

lemma pipelined_decoded: "utf8_decode pipelined_requests = str pipelined_requests"
  by (rule utf8_decode_ascii) (simp add: pipelined_requests_def request_a_def request_b_def CR_LF_def)

lemma pipelined_header_end: "String_indexOf (str pipelined_requests) (CRLF @ CRLF) = Some 34"
  by (simp add: pipelined_requests_def request_a_def request_b_def CR_LF_def CRLF_def)

lemma pipelined_lines: "String_split (take 34 (str pipelined_requests)) CRLF =
    [str ''GET /a HTTP/1.1'', str ''Content-Length: 0'']"
  by (simp add: pipelined_requests_def request_a_def request_b_def CR_LF_def CRLF_def String_split_Some String_split_None)

lemma request_a_tokens: "String_split (str ''GET /a HTTP/1.1'') (str '' '') = [str ''GET'', str ''/a'', str ''HTTP/1.1'']"
  by (simp add: String_split_Some String_split_None)

lemma request_a_headers: "extractHeaders [str ''GET /a HTTP/1.1'', str ''Content-Length: 0''] = [(str ''content-length'', str ''0'')]"
  by (simp add: extractHeaders_def String_trim_def String_toLowerCase_def lower_unit_def is_space_def)

lemma pipelined_length: "length pipelined_requests = 76"
  by (simp add: pipelined_requests_def request_a_def request_b_def CR_LF_def)

lemma pipelined_rest: "Buffer_slice pipelined_requests 38 76 = request_b"
  by (simp add: Buffer_slice_def clamp_index_def pipelined_requests_def request_a_def request_b_def CR_LF_def)

lemma pipelined_body: "Buffer_slice pipelined_requests 38 38 = []"
  by (simp add: Buffer_slice_def clamp_index_def)

lemma short_decoded: "utf8_decode request_short = str request_short"
  by (rule utf8_decode_ascii) (simp add: request_short_def CR_LF_def)

lemma short_header_end: "String_indexOf (str request_short) (CRLF @ CRLF) = Some 8"
  by (simp add: request_short_def CR_LF_def CRLF_def)

lemma short_lines: "String_split (take 8 (str request_short)) CRLF = [str ''GET /foo'']"
  by (simp add: request_short_def CR_LF_def CRLF_def String_split_Some String_split_None)

lemma short_tokens: "String_split (str ''GET /foo'') (str '' '') = [str ''GET'', str ''/foo'']"
  by (simp add: String_split_Some String_split_None)

lemma short_headers: "extractHeaders [str ''GET /foo''] = []"
  by (simp add: extractHeaders_def)

lemma short_length: "length request_short = 12"
  by (simp add: request_short_def CR_LF_def)

lemma blank_decoded: "utf8_decode (CR_LF @ CR_LF) = str (CR_LF @ CR_LF)"
  by (rule utf8_decode_ascii) (simp add: CR_LF_def)

lemma blank_header_end: "String_indexOf (str (CR_LF @ CR_LF)) (CRLF @ CRLF) = Some 0"
  by (simp add: CR_LF_def CRLF_def)

lemma blank_lines: "String_split (take 0 (str (CR_LF @ CR_LF))) CRLF = [[]]"
  by (simp add: CRLF_def String_split_None)

lemma blank_tokens: "String_split [] (str '' '') = [[]]"
  by (simp add: String_split_None)

lemma blank_headers: "extractHeaders [[]] = []"
  by (simp add: extractHeaders_def)

lemma binary_decoded: "utf8_decode request_binary = str request_binary"
  by (rule utf8_decode_ascii) (simp add: request_binary_def CR_LF_def)

lemma binary_header_end: "String_indexOf (str request_binary) (CRLF @ CRLF) = Some 38"
  by (simp add: request_binary_def CR_LF_def CRLF_def)

lemma binary_lines: "String_split (take 38 (str request_binary)) CRLF =
    [str ''POST /v1/m HTTP/1.1'', str ''Content-Length: 8'']"
  by (simp add: request_binary_def CR_LF_def CRLF_def String_split_Some String_split_None)

lemma binary_tokens: "String_split (str ''POST /v1/m HTTP/1.1'') (str '' '') =
    [str ''POST'', str ''/v1/m'', str ''HTTP/1.1'']"
  by (simp add: String_split_Some String_split_None)

lemma binary_headers: "extractHeaders [str ''POST /v1/m HTTP/1.1'', str ''Content-Length: 8''] =
    [(str ''content-length'', str ''8'')]"
  by (simp add: extractHeaders_def String_trim_def String_toLowerCase_def lower_unit_def
      is_space_def)

lemma binary_length: "length request_binary = 50"
  by (simp add: request_binary_def CR_LF_def)

lemma parse_literals:
  "parseInt [48] = Some 0" "parseInt [56] = Some 8"
  by (simp_all add: parseInt_def is_space_def is_digit_def digits_value_def)

lemma tls_onData_pipelined:
  "tls_onData ps hostname now [] pipelined_requests =
     (request_b,
      emit ps (interceptedEntry (config ps) now hostname (str ''GET'') (str ''/a'')
                 [(str ''content-length'', str ''0'')] [])
      @ [ServerWrite pipelined_requests])"
proof -
  have "tls_onData ps hostname now [] pipelined_requests =
     (Buffer_slice ([] @ pipelined_requests) (int 34 + 4 + 0)
        (int (length ([] @ pipelined_requests))),
      emit ps (interceptedEntry (config ps) now hostname
                 (or_default (array_get (String_split
                    ([str ''GET /a HTTP/1.1'', str ''Content-Length: 0''] ! 0) (str '' '')) 0)
                    (str ''UNKNOWN''))
                 (or_default (array_get (String_split
                    ([str ''GET /a HTTP/1.1'', str ''Content-Length: 0''] ! 0) (str '' '')) 1)
                    (str ''/''))
                 (extractHeaders [str ''GET /a HTTP/1.1'', str ''Content-Length: 0''])
                 (Buffer_slice ([] @ pipelined_requests) (int 34 + 4) (int 34 + 4 + 0)))
      @ [ServerWrite pipelined_requests])"
  proof (rule tls_onData_complete)
    show "String_indexOf (utf8_decode ([] @ pipelined_requests)) (CRLF @ CRLF) = Some 34"
      by (simp only: append_Nil pipelined_decoded pipelined_header_end)
    show "[str ''GET /a HTTP/1.1'', str ''Content-Length: 0''] =
            String_split (take 34 (utf8_decode ([] @ pipelined_requests))) CRLF"
      by (simp only: append_Nil pipelined_decoded pipelined_lines)
    show "parseInt (or_default (map_of (extractHeaders
            [str ''GET /a HTTP/1.1'', str ''Content-Length: 0'']) (str ''content-length''))
            (str ''0'')) = Some 0"
      by (simp only: request_a_headers) (simp add: parseInt_def is_space_def is_digit_def digits_value_def)
    show "0 \<le> int (length ([] @ pipelined_requests)) - (int 34 + 4)"
      by (simp add: pipelined_length)
  qed
  then show ?thesis
    by (simp only: append_Nil nth_Cons_0 request_a_tokens request_a_headers pipelined_length)
       (simp add: array_get_def pipelined_rest pipelined_body)
qed

text \<open>
  C3. The \<^verbatim>\<open>data\<close> handler looks for one request in the buffer and then forwards the
  chunk; it does not scan on, so a chunk never yields more than one record. When two
  requests without a body arrive in one chunk, the handler logs one record, for the
  first request, and the second request stays in the buffer, unlogged, until another
  chunk arrives.
\<close>

theorem pipelined_requests_single_record:
  "length (logged (snd (tls_onData ps hostname now buf chunk))) \<le> 1 \<and>
   logged (snd (tls_onData ps hostname now [] pipelined_requests)) =
     [interceptedEntry (config ps) now hostname (str ''GET'') (str ''/a'')
        [(str ''content-length'', str ''0'')] []] \<and>
   fst (tls_onData ps hostname now [] pipelined_requests) = request_b"
  using tls_onData_at_most_one [of ps hostname now buf chunk]
  by (simp add: tls_onData_pipelined logged_append logged_emit)

text \<open>
  C8 (as amended). A complete request (header end found, \<^verbatim>\<open>Content-Length\<close> read as
  \<open>n\<close>, at least \<open>n\<close> bytes after the header) is logged whatever the number of tokens
  on its request line. Each field has its own default: the method is the first token, or
  \<open>UNKNOWN\<close> when that token is empty; the path is the second token, or \<open>/\<close> when there
  is no second token or it is empty. The first token is the request line up to its
  first space.
\<close>

theorem sniffer_request_line_defaults:
  assumes he: "String_indexOf (utf8_decode (buf @ chunk)) (CRLF @ CRLF) = Some headerEnd"
    and ln: "lines = String_split (take headerEnd (utf8_decode (buf @ chunk))) CRLF"
    and cl: "parseInt (or_default (map_of (extractHeaders lines) (str ''content-length''))
               (str ''0'')) = Some n"
    and enough: "n \<le> int (length (buf @ chunk)) - (int headerEnd + 4)"
    and tk: "tokens = String_split (lines ! 0) (str '' '')"
  shows "\<exists>e. logged (snd (tls_onData ps hostname now buf chunk)) = [e] \<and>
           (method e = (if tokens ! 0 = [] then str ''UNKNOWN'' else tokens ! 0)) \<and>
           path e = (if length tokens < 2 \<or> tokens ! 1 = [] then str ''/'' else tokens ! 1) \<and>
           tokens \<noteq> [] \<and> tokens ! 0 = takeWhile (\<lambda>c. c \<noteq> 32) (lines ! 0)"
proof -
  have ne: "tokens \<noteq> []" unfolding tk by (rule String_split_nonempty) simp
  have first: "tokens ! 0 = takeWhile (\<lambda>c. c \<noteq> 32) (lines ! 0)"
    unfolding tk using String_split_unit_first [of "lines ! 0" 32] by simp
  from ne have g0: "array_get tokens 0 = Some (tokens ! 0)" by (simp add: array_get_def)
  have g1: "array_get tokens 1 = (if length tokens < 2 then None else Some (tokens ! 1))"
    by (auto simp: array_get_def)
  have m: "or_default (array_get tokens 0) (str ''UNKNOWN'') =
             (if tokens ! 0 = [] then str ''UNKNOWN'' else tokens ! 0)"
    unfolding g0 by simp
  have p: "or_default (array_get tokens 1) (str ''/'') =
             (if length tokens < 2 \<or> tokens ! 1 = [] then str ''/'' else tokens ! 1)"
    unfolding g1 by simp
  note step = tls_onData_complete [OF he ln cl enough, of ps hostname now, folded tk]
  have "logged (snd (tls_onData ps hostname now buf chunk)) =
          [interceptedEntry (config ps) now hostname
             (or_default (array_get tokens 0) (str ''UNKNOWN''))
             (or_default (array_get tokens 1) (str ''/''))
             (extractHeaders lines)
             (Buffer_slice (buf @ chunk) (int headerEnd + 4) (int headerEnd + 4 + n))]"
    unfolding step by (simp add: logged_append logged_emit)
  with m p ne first show ?thesis by simp
qed


lemma tls_onData_blank:
  "tls_onData ps hostname now [] (CR_LF @ CR_LF) =
     ([], emit ps (interceptedEntry (config ps) now hostname (str ''UNKNOWN'') (str ''/'') [] [])
          @ [ServerWrite (CR_LF @ CR_LF)])"
proof -
  have "tls_onData ps hostname now [] (CR_LF @ CR_LF) =
     (Buffer_slice ([] @ CR_LF @ CR_LF) (int 0 + 4 + 0) (int (length ([] @ CR_LF @ CR_LF))),
      emit ps (interceptedEntry (config ps) now hostname
                 (or_default (array_get (String_split ([[]] ! 0) (str '' '')) 0)
                    (str ''UNKNOWN''))
                 (or_default (array_get (String_split ([[]] ! 0) (str '' '')) 1) (str ''/''))
                 (extractHeaders [[]])
                 (Buffer_slice ([] @ CR_LF @ CR_LF) (int 0 + 4) (int 0 + 4 + 0)))
      @ [ServerWrite (CR_LF @ CR_LF)])"
  proof (rule tls_onData_complete)
    show "String_indexOf (utf8_decode ([] @ CR_LF @ CR_LF)) (CRLF @ CRLF) = Some 0"
      by (simp only: append_Nil blank_decoded blank_header_end)
    show "[[]] = String_split (take 0 (utf8_decode ([] @ CR_LF @ CR_LF))) CRLF"
      by (simp only: append_Nil blank_decoded blank_lines)
    show "parseInt (or_default (map_of (extractHeaders [[]]) (str ''content-length''))
            (str ''0'')) = Some 0"
      by (simp only: blank_headers) (simp add: parse_literals)
    show "0 \<le> int (length ([] @ CR_LF @ CR_LF)) - (int 0 + 4)"
      by (simp add: CR_LF_def)
  qed
  then show ?thesis
    by (simp only: append_Nil nth_Cons_0 blank_tokens blank_headers)
       (simp add: array_get_def Buffer_slice_def clamp_index_def CR_LF_def)
qed

lemma tls_onData_short:
  "tls_onData ps hostname now [] request_short =
     ([], emit ps (interceptedEntry (config ps) now hostname (str ''GET'') (str ''/foo'') [] [])
          @ [ServerWrite request_short])"
proof -
  have "tls_onData ps hostname now [] request_short =
     (Buffer_slice ([] @ request_short) (int 8 + 4 + 0) (int (length ([] @ request_short))),
      emit ps (interceptedEntry (config ps) now hostname
                 (or_default (array_get (String_split ([str ''GET /foo''] ! 0) (str '' '')) 0)
                    (str ''UNKNOWN''))
                 (or_default (array_get (String_split ([str ''GET /foo''] ! 0) (str '' '')) 1)
                    (str ''/''))
                 (extractHeaders [str ''GET /foo''])
                 (Buffer_slice ([] @ request_short) (int 8 + 4) (int 8 + 4 + 0)))
      @ [ServerWrite request_short])"
  proof (rule tls_onData_complete)
    show "String_indexOf (utf8_decode ([] @ request_short)) (CRLF @ CRLF) = Some 8"
      by (simp only: append_Nil short_decoded short_header_end)
    show "[str ''GET /foo''] = String_split (take 8 (utf8_decode ([] @ request_short))) CRLF"
      by (simp only: append_Nil short_decoded short_lines)
    show "parseInt (or_default (map_of (extractHeaders [str ''GET /foo''])
            (str ''content-length'')) (str ''0'')) = Some 0"
      by (simp only: short_headers) (simp add: parse_literals)
    show "0 \<le> int (length ([] @ request_short)) - (int 8 + 4)"
      by (simp add: short_length)
  qed
  then show ?thesis
    by (simp only: append_Nil nth_Cons_0 short_tokens short_headers short_length)
       (simp add: array_get_def Buffer_slice_def clamp_index_def short_length)
qed

lemma tls_onData_binary:
  "tls_onData ps hostname now [] request_binary =
     ([], emit ps (interceptedEntry (config ps) now hostname (str ''POST'') (str ''/v1/m'')
                     [(str ''content-length'', str ''8'')] ''<binary>'')
          @ [ServerWrite request_binary])"
proof -
  have "tls_onData ps hostname now [] request_binary =
     (Buffer_slice ([] @ request_binary) (int 38 + 4 + 8) (int (length ([] @ request_binary))),
      emit ps (interceptedEntry (config ps) now hostname
                 (or_default (array_get (String_split
                    ([str ''POST /v1/m HTTP/1.1'', str ''Content-Length: 8''] ! 0) (str '' '')) 0)
                    (str ''UNKNOWN''))
                 (or_default (array_get (String_split
                    ([str ''POST /v1/m HTTP/1.1'', str ''Content-Length: 8''] ! 0) (str '' '')) 1)
                    (str ''/''))
                 (extractHeaders [str ''POST /v1/m HTTP/1.1'', str ''Content-Length: 8''])
                 (Buffer_slice ([] @ request_binary) (int 38 + 4) (int 38 + 4 + 8)))
      @ [ServerWrite request_binary])"
  proof (rule tls_onData_complete)
    show "String_indexOf (utf8_decode ([] @ request_binary)) (CRLF @ CRLF) = Some 38"
      by (simp only: append_Nil binary_decoded binary_header_end)
    show "[str ''POST /v1/m HTTP/1.1'', str ''Content-Length: 8''] =
            String_split (take 38 (utf8_decode ([] @ request_binary))) CRLF"
      by (simp only: append_Nil binary_decoded binary_lines)
    show "parseInt (or_default (map_of (extractHeaders
            [str ''POST /v1/m HTTP/1.1'', str ''Content-Length: 8'']) (str ''content-length''))
            (str ''0'')) = Some 8"
      by (simp only: binary_headers) (simp add: parse_literals)
    show "8 \<le> int (length ([] @ request_binary)) - (int 38 + 4)"
      by (simp add: binary_length)
  qed
  then show ?thesis
    by (simp only: append_Nil nth_Cons_0 binary_tokens binary_headers binary_length)
       (simp add: array_get_def Buffer_slice_def clamp_index_def binary_length,
        simp add: request_binary_def CR_LF_def)
qed

theorem sniffer_request_line_defaults_witness:
  "map method (logged (snd (tls_onData example_server (str ''api.anthropic.com'') (str ''t'') []
      (CR_LF @ CR_LF)))) = [str ''UNKNOWN''] \<and>
   map path (logged (snd (tls_onData example_server (str ''api.anthropic.com'') (str ''t'') []
      (CR_LF @ CR_LF)))) = [str ''/'']"
proof -
  have he: "String_indexOf (utf8_decode ([] @ CR_LF @ CR_LF)) (CRLF @ CRLF) = Some 0"
    by (simp only: append_Nil blank_decoded blank_header_end)
  have ln: "[[]] = String_split (take 0 (utf8_decode ([] @ CR_LF @ CR_LF))) CRLF"
    by (simp only: append_Nil blank_decoded blank_lines)
  have cl: "parseInt (or_default (map_of (extractHeaders [[]]) (str ''content-length''))
            (str ''0'')) = Some 0"
    by (simp only: blank_headers) (simp add: parse_literals)
  have enough: "0 \<le> int (length ([] @ CR_LF @ CR_LF)) - (int 0 + 4)"
    by (simp add: CR_LF_def)
  have tk: "[[]] = String_split ([[]] ! 0) (str '' '')"
    by (simp only: nth_Cons_0 blank_tokens)
  from sniffer_request_line_defaults [OF he ln cl enough tk,
      of example_server "str ''api.anthropic.com''" "str ''t''"]
  show ?thesis by auto
qed

text \<open>
  C8, the claim as written, fails on the request line \<open>GET /foo\<close>: it has two tokens,
  and the record keeps the method \<open>GET\<close> and the path \<open>/foo\<close>.
\<close>

theorem sniffer_request_line_counterexample:
  "length (String_split (str ''GET /foo'') (str '' '')) < 3 \<and>
   map method (logged (snd (tls_onData example_server (str ''api.anthropic.com'') (str ''t'') []
      request_short))) = [str ''GET''] \<and>
   map path (logged (snd (tls_onData example_server (str ''api.anthropic.com'') (str ''t'') []
      request_short))) = [str ''/foo'']"
proof -
  have "length (String_split (str ''GET /foo'') (str '' '')) < 3"
    by (simp only: short_tokens) simp
  then show ?thesis
    by (simp add: tls_onData_short logged_append logged_emit)
qed



subsection \<open>Hosts, targets and tunnels\<close>

lemma logged_interceptHttps:
  "interceptHttps ps hostname p head keys now_ms = Inr (effects, clientBuffer, ps') \<Longrightarrow>
   logged effects = [] \<and> upstream_bytes effects = [] \<and> clientBuffer = []"
  by (auto simp: interceptHttps_def split: sum.splits prod.splits)

lemma interceptHttps_head:
  "interceptHttps ps hostname p head keys now_ms = interceptHttps ps hostname p head' keys now_ms"
  by (simp add: interceptHttps_def)

lemma handleConnect_logged:
  "map host (logged (fst (handleConnect ps now keys now_ms req head))) =
     [String_split (or_default (req_url req) []) (str '':'') ! 0]"
  by (auto simp: handleConnect_def Let_def logged_append logged_emit tunnelHttps_def
      split: sum.splits prod.splits dest: logged_interceptHttps)

lemma handleConnect_watched_head:
  assumes "isWatchedDomain (config ps) (String_split (or_default (req_url req) []) (str '':'') ! 0)"
  shows "handleConnect ps now keys now_ms req head = handleConnect ps now keys now_ms req head'"
  using assms interceptHttps_head [of ps _ _ head keys now_ms head']
  by (simp add: handleConnect_def Let_def)

lemma interceptHttps_ready:
  assumes "caCert (certManager ps) \<noteq> None" "caKey (certManager ps) \<noteq> None"
  shows "\<exists>effects ps'. interceptHttps ps hostname p head keys now_ms = Inr (effects, [], ps')"
  using assms
  by (auto simp: interceptHttps_def getCertificateForHost_def generateHostCertificate_def Let_def
      split: option.splits sum.splits)

text \<open>
  C5 (as amended). The host of a record is the authority text as the client sent it; it
  is not lowercased. On the plain-HTTP path it is the \<^verbatim>\<open>Host\<close> header as it is, port
  included (\<open>unknown\<close> when the header is missing or empty). For a CONNECT it is the
  target up to its first colon, hence without the port. In an intercepted tunnel it is
  the host name of the CONNECT.
\<close>

theorem record_host_as_received:
  "host (handleRequest_entry cfg now clientReq body) =
     or_default (map_of (req_headers clientReq) (str ''host'')) (str ''unknown'') \<and>
   map host (logged (fst (handleConnect ps now keys now_ms req head))) =
     [takeWhile (\<lambda>c. c \<noteq> 58) (or_default (req_url req) [])] \<and>
   (\<forall>e \<in> set (logged (snd (tls_session ps hostname buf chunks))). host e = hostname)"
proof -
  have "String_split (or_default (req_url req) []) (str '':'') ! 0 =
          takeWhile (\<lambda>c. c \<noteq> 58) (or_default (req_url req) [])"
    using String_split_unit_first [of "or_default (req_url req) []" 58] by simp
  then show ?thesis
    by (simp add: handleRequest_entry_fields handleConnect_logged tls_session_host)
qed

theorem record_host_as_received_witness:
  "map host (logged (snd (tls_session example_server (str ''api.anthropic.com'') []
      [(str ''t'', request_binary)]))) = [str ''api.anthropic.com'']"
proof -
  have one: "length (logged (snd (tls_session example_server (str ''api.anthropic.com'') []
      [(str ''t'', request_binary)]))) = 1"
    by (simp add: Let_def tls_onData_binary logged_append logged_emit)
  from record_host_as_received [where ps = example_server
      and hostname = "str ''api.anthropic.com''" and buf = "[]"
      and chunks = "[(str ''t'', request_binary)]"]
  have "\<forall>e \<in> set (logged (snd (tls_session example_server (str ''api.anthropic.com'') []
      [(str ''t'', request_binary)]))). host e = str ''api.anthropic.com''"
    by blast
  with one show ?thesis
    by (cases "logged (snd (tls_session example_server (str ''api.anthropic.com'') []
      [(str ''t'', request_binary)]))") auto
qed

text \<open>
  C5, the claim as written, fails for the header \<open>Host: Example.test:8080\<close>: the
  record keeps the upper-case letter and the port.
\<close>

theorem record_host_counterexample:
  "host (handleRequest_entry DEFAULT_CONFIG (str ''t'')
     \<lparr>req_url = Some (str ''/''), req_method = Some (str ''GET''),
      req_headers = [(str ''host'', str ''Example.test:8080'')]\<rparr> []) = str ''Example.test:8080'' \<and>
   host (handleRequest_entry DEFAULT_CONFIG (str ''t'')
     \<lparr>req_url = Some (str ''/''), req_method = Some (str ''GET''),
      req_headers = [(str ''host'', str ''Example.test:8080'')]\<rparr> []) \<noteq> str ''example.test''"
  by (simp add: handleRequest_entry_fields)

text \<open>
  C4 (as amended). When the request-target is not absolute and
  \<^verbatim>\<open>http://<Host-header><request-target>\<close> does not parse, the forwarder answers
  \<open>400 Bad Request\<close> and ends the response; the record of the request has been emitted
  before the target is parsed, so exactly one record is logged for that request.
\<close>

theorem handleRequest_unparsable_target:
  assumes rel: "\<not> String_startsWith (or_default (req_url clientReq) (str ''/'')) (str ''http://'')"
               "\<not> String_startsWith (or_default (req_url clientReq) (str ''/'')) (str ''https://'')"
    and bad: "parseURL (str ''http://'' @
                or_default (map_of (req_headers clientReq) (str ''host'')) (str ''unknown'') @
                or_default (req_url clientReq) (str ''/'')) = None"
  shows "handleRequest ps parseURL now clientReq bodyChunks =
           emit ps (handleRequest_entry (config ps) now clientReq (concat bodyChunks)) @
           [WriteHead 400 [(str ''Content-Type'', str ''text/plain'')],
            ResponseEnd (str ''Bad Request'')] \<and>
         logged (handleRequest ps parseURL now clientReq bodyChunks) =
           [handleRequest_entry (config ps) now clientReq (concat bodyChunks)]"
proof -
  have "handleRequest ps parseURL now clientReq bodyChunks =
           emit ps (handleRequest_entry (config ps) now clientReq (concat bodyChunks)) @
           [WriteHead 400 [(str ''Content-Type'', str ''text/plain'')],
            ResponseEnd (str ''Bad Request'')]"
    unfolding handleRequest_def Let_def using rel bad by simp
  then show ?thesis by (simp add: logged_append logged_emit)
qed

theorem handleRequest_unparsable_target_witness:
  "logged (handleRequest example_server (\<lambda>text. None) (str ''t'')
     \<lparr>req_url = Some (str ''/''), req_method = Some (str ''GET''),
      req_headers = [(str ''host'', str ''exa mple'')]\<rparr> []) =
   [handleRequest_entry DEFAULT_CONFIG (str ''t'')
     \<lparr>req_url = Some (str ''/''), req_method = Some (str ''GET''),
      req_headers = [(str ''host'', str ''exa mple'')]\<rparr> []]"
proof -
  let ?req = "\<lparr>req_url = Some (str ''/''), req_method = Some (str ''GET''),
               req_headers = [(str ''host'', str ''exa mple'')]\<rparr>"
  have rel1: "\<not> String_startsWith (or_default (req_url ?req) (str ''/'')) (str ''http://'')"
    by simp
  have rel2: "\<not> String_startsWith (or_default (req_url ?req) (str ''/'')) (str ''https://'')"
    by simp
  have bad: "(\<lambda>text. None) (str ''http://'' @
                or_default (map_of (req_headers ?req) (str ''host'')) (str ''unknown'') @
                or_default (req_url ?req) (str ''/'')) = (None :: URL option)"
    by simp
  from handleRequest_unparsable_target [OF rel1 rel2 bad, of example_server "str ''t''" "[]"]
  have "logged (handleRequest example_server (\<lambda>text. None) (str ''t'') ?req []) =
          [handleRequest_entry (config example_server) (str ''t'') ?req (concat [])]"
    by (rule conjunct2)
  then show ?thesis by (simp add: example_server_def)
qed

text \<open>
  C4, the claim as written, fails: for the header \<open>Host: exa mple\<close> and the target
  \<open>/\<close>, whatever parser rejects \<^verbatim>\<open>http://exa mple/\<close>, a record is logged.
\<close>

theorem handleRequest_bad_target_counterexample:
  "\<not> (\<forall>parseURL. parseURL (str ''http://exa mple/'') = None \<longrightarrow>
        logged (handleRequest example_server parseURL (str ''t'')
          \<lparr>req_url = Some (str ''/''), req_method = Some (str ''GET''),
           req_headers = [(str ''host'', str ''exa mple'')]\<rparr> []) = [])"
proof
  assume all: "\<forall>parseURL. parseURL (str ''http://exa mple/'') = None \<longrightarrow>
        logged (handleRequest example_server parseURL (str ''t'')
          \<lparr>req_url = Some (str ''/''), req_method = Some (str ''GET''),
           req_headers = [(str ''host'', str ''exa mple'')]\<rparr> []) = []"
  have "logged (handleRequest example_server (\<lambda>text. None) (str ''t'')
          \<lparr>req_url = Some (str ''/''), req_method = Some (str ''GET''),
           req_headers = [(str ''host'', str ''exa mple'')]\<rparr> []) = []"
    using all [THEN spec, of "\<lambda>text. None"] by simp
  then show False
    by (simp add: handleRequest_def Let_def logged_append logged_emit)
qed

text \<open>
  C9. For a watched host, \<open>head\<close> plays no part: the CONNECT and the session that
  follows are the same as with an empty \<open>head\<close>, and, the CA being loaded, the bytes
  written upstream are the chunks received on the TLS socket and nothing else. For any
  other host the tunnel writes \<open>head\<close> upstream first and then the client's chunks.
\<close>

theorem head_written_only_by_tunnel:
  "(isWatchedDomain (config ps) (String_split (or_default (req_url req) []) (str '':'') ! 0) \<longrightarrow>
      connect_then_data ps now keys now_ms req head chunks =
        connect_then_data ps now keys now_ms req [] chunks \<and>
      (caCert (certManager ps) \<noteq> None \<and> caKey (certManager ps) \<noteq> None \<longrightarrow>
         upstream_bytes (connect_then_data ps now keys now_ms req head chunks) =
           concat (map snd chunks))) \<and>
   (\<not> isWatchedDomain (config ps) (String_split (or_default (req_url req) []) (str '':'') ! 0) \<longrightarrow>
      upstream_bytes (connect_then_data ps now keys now_ms req head chunks) =
        head @ concat (map snd chunks))"
proof (intro conjI impI)
  assume w: "isWatchedDomain (config ps) (String_split (or_default (req_url req) []) (str '':'') ! 0)"
  show "connect_then_data ps now keys now_ms req head chunks =
        connect_then_data ps now keys now_ms req [] chunks"
    unfolding connect_then_data_def handleConnect_watched_head [OF w, of now keys now_ms head "[]"] ..
  assume "caCert (certManager ps) \<noteq> None \<and> caKey (certManager ps) \<noteq> None"
  then obtain effects ps' where
    "interceptHttps ps (String_split (or_default (req_url req) []) (str '':'') ! 0)
       (case parseInt (case array_get (String_split (or_default (req_url req) []) (str '':'')) 1 of
                         None \<Rightarrow> str ''undefined'' | Some t \<Rightarrow> t) of
          None \<Rightarrow> 443 | Some n \<Rightarrow> if n = 0 then 443 else n)
       head keys now_ms = Inr (effects, [], ps')"
    using interceptHttps_ready by blast
  moreover from this have "upstream_bytes effects = []" by (auto dest: logged_interceptHttps)
  ultimately show "upstream_bytes (connect_then_data ps now keys now_ms req head chunks) =
           concat (map snd chunks)"
    using w
    by (simp add: connect_then_data_def handleConnect_def Let_def upstream_bytes_append
        upstream_bytes_emit tls_session_upstream)
next
  assume nw: "\<not> isWatchedDomain (config ps)
                 (String_split (or_default (req_url req) []) (str '':'') ! 0)"
  have "upstream_bytes (concat (map (\<lambda>c. pipe_onData (snd c)) chunks)) = concat (map snd chunks)"
    by (induction chunks) (simp_all add: pipe_onData_def)
  with nw show "upstream_bytes (connect_then_data ps now keys now_ms req head chunks) =
        head @ concat (map snd chunks)"
    by (simp add: connect_then_data_def handleConnect_def Let_def upstream_bytes_append
        upstream_bytes_emit tunnelHttps_def tunnelHttps_onConnect_def)
qed

subsection \<open>The certificate manager\<close>

lemma path_join_neq_dir: "path_join dir name \<noteq> dir"
proof
  assume "path_join dir name = dir"
  then have "length (path_join dir name) = length dir" by simp
  then show False by (simp add: path_join_def)
qed

lemma existsSync_ensureCertDir:
  "existsSync (ensureCertDir fs dir) (path_join dir name) = existsSync fs (path_join dir name)"
  using path_join_neq_dir [of dir name]
  by (auto simp: ensureCertDir_def existsSync_def mkdirSync_def)

lemma files_ensureCertDir: "files (ensureCertDir fs dir) = files fs"
  by (simp add: ensureCertDir_def mkdirSync_def)

lemma ensureCertDir_exists: "existsSync fs dir \<Longrightarrow> ensureCertDir fs dir = fs"
  by (simp add: ensureCertDir_def)

lemma loadOrCreateCA_existing:
  assumes "existsSync fs (path_join (cm_certDir cm) (CA_CERT_NAME @ str ''.pem''))"
    and "existsSync fs (path_join (cm_certDir cm) (CA_CERT_NAME @ str ''-key.pem''))"
  shows "fst (loadOrCreateCA fs cm keys now) = fs"
  using assms
  by (simp add: loadOrCreateCA_def Let_def split: sum.splits)

lemma loadOrCreateCA_loads:
  assumes "files fs (path_join (cm_certDir cm) (CA_CERT_NAME @ str ''.pem'')) = Some (CertificatePem c)"
    and "files fs (path_join (cm_certDir cm) (CA_CERT_NAME @ str ''-key.pem'')) = Some (PrivateKeyPem k)"
  shows "snd (loadOrCreateCA fs cm keys now) = Inr (cm\<lparr>caCert := Some c, caKey := Some k\<rparr>)"
  using assms
  by (simp add: loadOrCreateCA_def Let_def existsSync_def readFileSync_def
      certificateFromPem_def privateKeyFromPem_def)

text \<open>
  C7. If both CA files exist when the manager is constructed, no file is written: the
  content of every file is as before (and the whole disk is, the directory being
  there). When the two files hold a certificate and a key, these are what the manager
  loads.
\<close>

theorem existing_CA_files_not_written:
  assumes crt: "existsSync fs (path_join dir (CA_CERT_NAME @ str ''.pem''))"
    and ky: "existsSync fs (path_join dir (CA_CERT_NAME @ str ''-key.pem''))"
  shows "files (fst (CertificateManager_new fs dir keys now)) = files fs \<and>
         (existsSync fs dir \<longrightarrow> fst (CertificateManager_new fs dir keys now) = fs) \<and>
         (files fs (path_join dir (CA_CERT_NAME @ str ''.pem'')) = Some (CertificatePem c) \<and>
          files fs (path_join dir (CA_CERT_NAME @ str ''-key.pem'')) = Some (PrivateKeyPem k) \<longrightarrow>
          snd (CertificateManager_new fs dir keys now) =
            Inr \<lparr>cm_certDir = dir, caCert = Some c, caKey = Some k, certCache = Map.empty\<rparr>)"
proof -
  let ?cm = "\<lparr>cm_certDir = dir, caCert = None, caKey = None, certCache = Map.empty\<rparr>"
  have same: "fst (CertificateManager_new fs dir keys now) = ensureCertDir fs dir"
    unfolding CertificateManager_new_def
  proof (rule loadOrCreateCA_existing)
    show "existsSync (ensureCertDir fs dir)
            (path_join (cm_certDir ?cm) (CA_CERT_NAME @ str ''.pem''))"
      using crt by (simp only: existsSync_ensureCertDir CertificateManager.simps)
    show "existsSync (ensureCertDir fs dir)
            (path_join (cm_certDir ?cm) (CA_CERT_NAME @ str ''-key.pem''))"
      using ky by (simp only: existsSync_ensureCertDir CertificateManager.simps)
  qed
  have loads: "snd (CertificateManager_new fs dir keys now) =
            Inr \<lparr>cm_certDir = dir, caCert = Some c, caKey = Some k, certCache = Map.empty\<rparr>"
    if "files fs (path_join dir (CA_CERT_NAME @ str ''.pem'')) = Some (CertificatePem c)"
      and "files fs (path_join dir (CA_CERT_NAME @ str ''-key.pem'')) = Some (PrivateKeyPem k)"
    unfolding CertificateManager_new_def
    using loadOrCreateCA_loads [of "ensureCertDir fs dir" ?cm c k keys now] that
    by (simp add: files_ensureCertDir)
  from same loads show ?thesis
    by (simp add: files_ensureCertDir ensureCertDir_exists)
qed

lemma first_start:
  "CertificateManager_new empty_disk (str ''.roo-sniffer-certs'') (PrivateKey 1) 1000 =
     (disk_with_CA, Inr example_manager)"
proof -
  have "snd (CertificateManager_new empty_disk (str ''.roo-sniffer-certs'') (PrivateKey 1) 1000) =
          Inr example_manager"
    by (simp add: CertificateManager_new_def loadOrCreateCA_def generateCA_def Let_def
        ensureCertDir_def existsSync_def mkdirSync_def empty_disk_def writeFileSync_def
        path_join_def CA_CERT_NAME_def example_manager_def)
  then show ?thesis by (simp add: disk_with_CA_def prod_eq_iff)
qed

lemma disk_with_CA_files:
  "existsSync disk_with_CA (str ''.roo-sniffer-certs'')"
  "files disk_with_CA (path_join (str ''.roo-sniffer-certs'') (CA_CERT_NAME @ str ''.pem'')) =
     Some (CertificatePem (the (caCert example_manager)))"
  "files disk_with_CA (path_join (str ''.roo-sniffer-certs'') (CA_CERT_NAME @ str ''-key.pem'')) =
     Some (PrivateKeyPem (PrivateKey 1))"
  by (simp_all add: disk_with_CA_def CertificateManager_new_def loadOrCreateCA_def
      generateCA_def Let_def ensureCertDir_def existsSync_def mkdirSync_def empty_disk_def
      writeFileSync_def path_join_def CA_CERT_NAME_def example_manager_def)

text \<open>C7 on the disk left by a first start: a restart leaves the same disk and CA.\<close>

theorem existing_CA_files_not_written_witness:
  "fst (CertificateManager_new disk_with_CA (str ''.roo-sniffer-certs'') (PrivateKey 2) 2000) =
     disk_with_CA \<and>
   snd (CertificateManager_new disk_with_CA (str ''.roo-sniffer-certs'') (PrivateKey 2) 2000) =
     Inr example_manager"
proof -
  have crt: "existsSync disk_with_CA
               (path_join (str ''.roo-sniffer-certs'') (CA_CERT_NAME @ str ''.pem''))"
    and ky: "existsSync disk_with_CA
               (path_join (str ''.roo-sniffer-certs'') (CA_CERT_NAME @ str ''-key.pem''))"
    using disk_with_CA_files(2,3) by (simp_all add: existsSync_def)
  note restart = existing_CA_files_not_written [OF crt ky, of "PrivateKey 2" 2000
      "the (caCert example_manager)" "PrivateKey 1"]
  from restart have "existsSync disk_with_CA (str ''.roo-sniffer-certs'') \<longrightarrow>
      fst (CertificateManager_new disk_with_CA (str ''.roo-sniffer-certs'') (PrivateKey 2) 2000) =
        disk_with_CA"
    by (rule conjunct2 [THEN conjunct1])
  with disk_with_CA_files(1)
  have unchanged: "fst (CertificateManager_new disk_with_CA (str ''.roo-sniffer-certs'')
      (PrivateKey 2) 2000) = disk_with_CA"
    by (rule rev_mp)
  from restart disk_with_CA_files(2,3)
  have "snd (CertificateManager_new disk_with_CA (str ''.roo-sniffer-certs'') (PrivateKey 2) 2000) =
          Inr \<lparr>cm_certDir = str ''.roo-sniffer-certs'', caCert = Some (the (caCert example_manager)),
               caKey = Some (PrivateKey 1), certCache = Map.empty\<rparr>"
    by blast
  also have "\<dots> = Inr example_manager" by (simp add: example_manager_def)
  finally show ?thesis using unchanged by simp
qed

lemma truncate_sign: "CertificateFields.truncate (sign c signer) = CertificateFields.truncate c"
  by (simp add: sign_def CertificateFields.truncate_def)

lemma sign_fields [simp]:
  "publicKey (sign c signer) = publicKey c"
  "subject (sign c signer) = subject c"
  "issuer (sign c signer) = issuer c"
  "extensions (sign c signer) = extensions c"
  "signed (sign c signer) = Some (SHA256_RSA signer (CertificateFields.truncate c))"
  by (simp_all add: sign_def)

lemma verify_sign:
  "issuer c = subject ca \<Longrightarrow> publicKey ca = Some (public_of signer) \<Longrightarrow> verify ca (sign c signer)"
  by (simp add: verify_def truncate_sign)

lemma signed_sign:
  "signed (sign c signer) = Some (SHA256_RSA signer (CertificateFields.truncate (sign c signer)))"
  by (simp add: truncate_sign)

lemma verify_signed_iff:
  assumes "issuer leaf = subject ca"
    and "signed leaf = Some (SHA256_RSA ca_key (CertificateFields.truncate leaf))"
  shows "verify ca leaf \<longleftrightarrow> publicKey ca = Some (public_of ca_key)"
  using assms by (simp add: verify_def)

lemma generateHostCertificate_leaf:
  assumes "caCert cm = Some ca" "caKey cm = Some k"
  shows "\<exists>certInfo. generateHostCertificate cm hostname keys now = Inr certInfo \<and>
           leaf_for ca k hostname certInfo"
proof -
  let ?cert1 = "(createCertificate now)\<lparr>publicKey := Some (public_of keys),
                    serialNumber := hex_digits now,
                    notBefore := Instant now,
                    notAfter := SetFullYearPlus (Instant now) 1,
                    subject := [(str ''commonName'', hostname),
                                (str ''organizationName'', str ''Roo Sniffer'')],
                    issuer := subject ca,
                    extensions := [basicConstraints False,
                                   keyUsage False True False True,
                                   extKeyUsage True,
                                   subjectAltName [(2, hostname)]]\<rparr>"
  have gen: "generateHostCertificate cm hostname keys now =
               Inr \<lparr>key = PrivateKeyPem keys, cert = CertificatePem (sign ?cert1 k)\<rparr>"
    using assms by (simp add: generateHostCertificate_def Let_def)
  have "leaf_for ca k hostname \<lparr>key = PrivateKeyPem keys, cert = CertificatePem (sign ?cert1 k)\<rparr>"
    unfolding leaf_for_def
    by (intro exI [of _ "sign ?cert1 k"] exI [of _ keys]) (simp add: truncate_sign)
  with gen show ?thesis by simp
qed

lemma generateCA_manager:
  assumes "generateCA fs cm keys now = (fs', Inr cm')"
  shows "\<exists>ca. caCert cm' = Some ca \<and> caKey cm' = Some keys \<and>
              publicKey ca = Some (public_of keys) \<and> certCache cm' = certCache cm"
  using assms
  by (auto simp: generateCA_def Let_def split: sum.splits)

lemma loadOrCreateCA_manager:
  assumes run: "loadOrCreateCA fs cm keys now = (fs', Inr cm')"
  shows "\<exists>ca k. caCert cm' = Some ca \<and> caKey cm' = Some k \<and> certCache cm' = certCache cm"
proof (cases "existsSync fs (path_join (cm_certDir cm) (CA_CERT_NAME @ str ''.pem'')) \<and>
              existsSync fs (path_join (cm_certDir cm) (CA_CERT_NAME @ str ''-key.pem''))")
  case True
  with run show ?thesis
    by (auto simp: loadOrCreateCA_def Let_def split: sum.splits)
next
  case False
  with run have "generateCA fs cm keys now = (fs', Inr cm')"
    by (simp only: loadOrCreateCA_def Let_def if_False)
  from generateCA_manager [OF this] show ?thesis by blast
qed

lemma coherent_ensureCertDir:
  "coherent_CA_files (ensureCertDir fs dir) dir = coherent_CA_files fs dir"
  by (simp only: coherent_CA_files_def existsSync_ensureCertDir files_ensureCertDir)

lemma loadOrCreateCA_key_matches:
  assumes co: "coherent_CA_files fs (cm_certDir cm)"
    and run: "loadOrCreateCA fs cm keys now = (fs', Inr cm')"
  shows "\<exists>ca k. caCert cm' = Some ca \<and> caKey cm' = Some k \<and>
              publicKey ca = Some (public_of k)"
proof (cases "existsSync fs (path_join (cm_certDir cm) (CA_CERT_NAME @ str ''.pem'')) \<and>
              existsSync fs (path_join (cm_certDir cm) (CA_CERT_NAME @ str ''-key.pem''))")
  case True
  with co obtain c k where
    c: "files fs (path_join (cm_certDir cm) (CA_CERT_NAME @ str ''.pem'')) = Some (CertificatePem c)"
    and k: "files fs (path_join (cm_certDir cm) (CA_CERT_NAME @ str ''-key.pem'')) =
              Some (PrivateKeyPem k)"
    and pk: "publicKey c = Some (public_of k)"
    unfolding coherent_CA_files_def by blast
  from loadOrCreateCA_loads [OF c k, of keys now] run
  have "cm' = cm\<lparr>caCert := Some c, caKey := Some k\<rparr>" by simp
  with pk show ?thesis by simp
next
  case False
  with run have "generateCA fs cm keys now = (fs', Inr cm')"
    by (simp only: loadOrCreateCA_def Let_def if_False)
  from generateCA_manager [OF this] show ?thesis by blast
qed

text \<open>
  Over coherent CA files, in particular on a first start and on every restart over the
  files a first start wrote, the key the manager holds is the key of its certificate.
\<close>

lemma coherent_start_key_matches:
  assumes "coherent_CA_files fs dir"
    and "CertificateManager_new fs dir keys now = (fs', Inr cm)"
  shows "\<exists>ca k. caCert cm = Some ca \<and> caKey cm = Some k \<and> publicKey ca = Some (public_of k)"
proof -
  let ?cm0 = "\<lparr>cm_certDir = dir, caCert = None, caKey = None, certCache = Map.empty\<rparr>"
  from assms(1) have "coherent_CA_files (ensureCertDir fs dir) (cm_certDir ?cm0)"
    by (simp add: coherent_ensureCertDir)
  moreover from assms(2)
  have "loadOrCreateCA (ensureCertDir fs dir) ?cm0 keys now = (fs', Inr cm)"
    by (simp add: CertificateManager_new_def)
  ultimately show ?thesis by (rule loadOrCreateCA_key_matches)
qed

lemma getCertificateForHost_cases:
  assumes "getCertificateForHost cm hostname keys now = Inr (certInfo, cm')"
  shows "(certCache cm hostname = Some certInfo \<and> cm' = cm) \<or>
         (certCache cm hostname = None \<and>
          generateHostCertificate cm hostname keys now = Inr certInfo \<and>
          cm' = cm\<lparr>certCache := (certCache cm)(hostname \<mapsto> certInfo)\<rparr>)"
  using assms by (auto simp: getCertificateForHost_def split: option.splits sum.splits)

lemma managers_invariant:
  assumes "cm \<in> managers"
  shows "\<exists>ca k. caCert cm = Some ca \<and> caKey cm = Some k \<and>
           (\<forall>h certInfo. certCache cm h = Some certInfo \<longrightarrow> leaf_for ca k h certInfo)"
  using assms
proof (induction rule: managers.induct)
  case (constructed fs dir keys now fs' cm)
  let ?cm0 = "\<lparr>cm_certDir = dir, caCert = None, caKey = None, certCache = Map.empty\<rparr>"
  from constructed have "loadOrCreateCA (ensureCertDir fs dir) ?cm0 keys now = (fs', Inr cm)"
    by (simp add: CertificateManager_new_def)
  then obtain ca k where "caCert cm = Some ca" "caKey cm = Some k"
    "certCache cm = certCache ?cm0"
    using loadOrCreateCA_manager by blast
  then show ?case by simp
next
  case (leaf_issued cm hostname keys now certInfo cm')
  then obtain ca k where ca: "caCert cm = Some ca" "caKey cm = Some k"
    and cache: "\<forall>h ci. certCache cm h = Some ci \<longrightarrow> leaf_for ca k h ci"
    by blast
  from getCertificateForHost_cases [OF leaf_issued(2)]
  show ?case
  proof
    assume "certCache cm hostname = Some certInfo \<and> cm' = cm"
    with ca cache show ?thesis by blast
  next
    assume miss: "certCache cm hostname = None \<and>
          generateHostCertificate cm hostname keys now = Inr certInfo \<and>
          cm' = cm\<lparr>certCache := (certCache cm)(hostname \<mapsto> certInfo)\<rparr>"
    with generateHostCertificate_leaf [OF ca, of hostname keys now]
    have "leaf_for ca k hostname certInfo" by auto
    with miss ca cache show ?thesis by auto
  qed
qed

text \<open>
  C6 (as amended). For every manager the constructor can return, after any calls, and
  every host name, \<^verbatim>\<open>getCertificateForHost\<close> returns a certificate whose subject CN is
  the host name, with a DNS subject-alternative-name equal to the host name,
  \<open>cA = false\<close>, extended key usage \<open>serverAuth\<close>, the subject of the CA certificate as
  issuer, and a signature by the CA key the manager holds. That signature verifies
  against the CA certificate exactly when the public key of the CA certificate is the
  public key of that CA key: the two are read from two files and not compared.
\<close>

theorem leaf_certificate_for_host:
  assumes "cm \<in> managers"
  shows "\<exists>ca ca_key leaf k cm'.
           caCert cm = Some ca \<and> caKey cm = Some ca_key \<and>
           getCertificateForHost cm hostname keys now =
             Inr (\<lparr>key = PrivateKeyPem k, cert = CertificatePem leaf\<rparr>, cm') \<and>
           cm' \<in> managers \<and>
           map_of (subject leaf) (str ''commonName'') = Some hostname \<and>
           subjectAltName [(2, hostname)] \<in> set (extensions leaf) \<and>
           basicConstraints False \<in> set (extensions leaf) \<and>
           extKeyUsage True \<in> set (extensions leaf) \<and>
           issuer leaf = subject ca \<and>
           signed leaf = Some (SHA256_RSA ca_key (CertificateFields.truncate leaf)) \<and>
           (verify ca leaf \<longleftrightarrow> publicKey ca = Some (public_of ca_key))"
proof -
  from managers_invariant [OF assms] obtain ca ca_key where ca: "caCert cm = Some ca"
    "caKey cm = Some ca_key"
    and cache: "\<forall>h ci. certCache cm h = Some ci \<longrightarrow> leaf_for ca ca_key h ci"
    by blast
  have "\<exists>certInfo cm'. getCertificateForHost cm hostname keys now = Inr (certInfo, cm') \<and>
          leaf_for ca ca_key hostname certInfo"
  proof (cases "certCache cm hostname")
    case None
    with generateHostCertificate_leaf [OF ca, of hostname keys now]
    show ?thesis by (auto simp: getCertificateForHost_def)
  next
    case (Some cached)
    with cache show ?thesis by (auto simp: getCertificateForHost_def)
  qed
  then obtain certInfo cm' where
    run: "getCertificateForHost cm hostname keys now = Inr (certInfo, cm')"
    and leaf: "leaf_for ca ca_key hostname certInfo"
    by blast
  from leaf obtain leaf_cert k where
    info: "certInfo = \<lparr>key = PrivateKeyPem k, cert = CertificatePem leaf_cert\<rparr>"
    and fields: "map_of (subject leaf_cert) (str ''commonName'') = Some hostname"
      "subjectAltName [(2, hostname)] \<in> set (extensions leaf_cert)"
      "basicConstraints False \<in> set (extensions leaf_cert)"
      "extKeyUsage True \<in> set (extensions leaf_cert)"
    and iss: "issuer leaf_cert = subject ca"
    and sig: "signed leaf_cert = Some (SHA256_RSA ca_key (CertificateFields.truncate leaf_cert))"
    unfolding leaf_for_def by blast
  from assms run have mem: "cm' \<in> managers" by (rule managers.leaf_issued)
  note ver = verify_signed_iff [OF iss sig]
  from ca run [unfolded info] mem fields iss sig ver show ?thesis by blast
qed

lemma example_manager_arises: "example_manager \<in> managers"
  by (rule managers.constructed [OF first_start])

theorem leaf_certificate_for_host_witness:
  "\<exists>leaf k cm'.
     getCertificateForHost example_manager (str ''api.anthropic.com'') (PrivateKey 2) 2000 =
       Inr (\<lparr>key = PrivateKeyPem k, cert = CertificatePem leaf\<rparr>, cm') \<and>
     map_of (subject leaf) (str ''commonName'') = Some (str ''api.anthropic.com'') \<and>
     subjectAltName [(2, str ''api.anthropic.com'')] \<in> set (extensions leaf) \<and>
     verify (the (caCert example_manager)) leaf"
proof -
  from leaf_certificate_for_host [OF example_manager_arises,
      of "str ''api.anthropic.com''" "PrivateKey 2" 2000]
  obtain ca ca_key leaf k cm' where
    ca: "caCert example_manager = Some ca" "caKey example_manager = Some ca_key"
    and run: "getCertificateForHost example_manager (str ''api.anthropic.com'') (PrivateKey 2)
                2000 = Inr (\<lparr>key = PrivateKeyPem k, cert = CertificatePem leaf\<rparr>, cm')"
    and fields: "map_of (subject leaf) (str ''commonName'') = Some (str ''api.anthropic.com'')"
      "subjectAltName [(2, str ''api.anthropic.com'')] \<in> set (extensions leaf)"
    and ver: "verify ca leaf \<longleftrightarrow> publicKey ca = Some (public_of ca_key)"
    by blast
  from ca have "publicKey ca = Some (public_of ca_key)"
    by (auto simp: example_manager_def)
  with ver have "verify ca leaf" by simp
  with ca(1) have "verify (the (caCert example_manager)) leaf" by simp
  with run fields show ?thesis by blast
qed

lemma disk_with_CA_coherent: "coherent_CA_files disk_with_CA (str ''.roo-sniffer-certs'')"
proof -
  have "publicKey (the (caCert example_manager)) = Some (public_of (PrivateKey 1))"
    by (simp add: example_manager_def)
  with disk_with_CA_files(2,3) show ?thesis
    unfolding coherent_CA_files_def by blast
qed

lemma CA_file_names_differ:
  "path_join dir (CA_CERT_NAME @ str ''.pem'') \<noteq> path_join dir (CA_CERT_NAME @ str ''-key.pem'')"
  by (simp add: path_join_def)

lemma mismatched_start:
  "snd (CertificateManager_new disk_mismatched (str ''.roo-sniffer-certs'') (PrivateKey 3) 3000) =
     Inr mismatched_manager"
proof -
  let ?dir = "str ''.roo-sniffer-certs''"
  let ?cm0 = "\<lparr>cm_certDir = ?dir, caCert = None, caKey = None, certCache = Map.empty\<rparr>"
  have c: "files (ensureCertDir disk_mismatched ?dir)
             (path_join (cm_certDir ?cm0) (CA_CERT_NAME @ str ''.pem'')) =
           Some (CertificatePem (the (caCert example_manager)))"
    using disk_with_CA_files(2) CA_file_names_differ [of ?dir]
    by (simp add: files_ensureCertDir disk_mismatched_def)
  have k: "files (ensureCertDir disk_mismatched ?dir)
             (path_join (cm_certDir ?cm0) (CA_CERT_NAME @ str ''-key.pem'')) =
           Some (PrivateKeyPem (PrivateKey 7))"
    by (simp add: files_ensureCertDir disk_mismatched_def)
  from loadOrCreateCA_loads [OF c k, of "PrivateKey 3" 3000]
  show ?thesis
    by (simp add: CertificateManager_new_def mismatched_manager_def example_manager_def)
qed

text \<open>
  C6, the claim as written, fails on a directory whose key file holds another key than
  the one of the CA certificate: the constructor loads both, and the leaf it then hands
  out is signed by that key and does not verify against the CA certificate.
\<close>

theorem leaf_signature_counterexample:
  "snd (CertificateManager_new disk_mismatched (str ''.roo-sniffer-certs'') (PrivateKey 3) 3000) =
     Inr mismatched_manager \<and>
   (case getCertificateForHost mismatched_manager (str ''api.anthropic.com'') (PrivateKey 4) 4000 of
      Inl e \<Rightarrow> False
    | Inr (certInfo, cm') \<Rightarrow>
        (case cert certInfo of
           CertificatePem leaf \<Rightarrow> \<not> verify (the (caCert mismatched_manager)) leaf
         | _ \<Rightarrow> False))"
proof -
  have "case getCertificateForHost mismatched_manager (str ''api.anthropic.com'') (PrivateKey 4)
               4000 of
      Inl e \<Rightarrow> False
    | Inr (certInfo, cm') \<Rightarrow>
        (case cert certInfo of
           CertificatePem leaf \<Rightarrow> \<not> verify (the (caCert mismatched_manager)) leaf
         | _ \<Rightarrow> False)"
    by (simp add: getCertificateForHost_def generateHostCertificate_def Let_def
        mismatched_manager_def example_manager_def verify_def)
  with mismatched_start show ?thesis by simp
qed

text \<open>The two modes of C9 on a watched and on an unwatched CONNECT.\<close>

lemma connect_hosts:
  "String_split (or_default (Some (str ''api.anthropic.com:443'')) []) (str '':'') ! 0 =
     str ''api.anthropic.com''"
  "String_split (or_default (Some (str ''foo.test:443'')) []) (str '':'') ! 0 = str ''foo.test''"
  by (simp_all add: String_split_unit_first)

theorem head_written_only_by_tunnel_witness:
  "upstream_bytes (connect_then_data example_server (str ''t'') (PrivateKey 2) 2000
     \<lparr>req_url = Some (str ''api.anthropic.com:443''), req_method = Some (str ''CONNECT''),
      req_headers = []\<rparr> ''xx'' [(str ''t'', ''yy'')]) = ''yy'' \<and>
   upstream_bytes (connect_then_data example_server (str ''t'') (PrivateKey 2) 2000
     \<lparr>req_url = Some (str ''foo.test:443''), req_method = Some (str ''CONNECT''),
      req_headers = []\<rparr> ''xx'' [(str ''t'', ''yy'')]) = ''xxyy''"
proof -
  let ?watched = "\<lparr>req_url = Some (str ''api.anthropic.com:443''),
                    req_method = Some (str ''CONNECT''), req_headers = []\<rparr>"
  let ?other = "\<lparr>req_url = Some (str ''foo.test:443''),
                  req_method = Some (str ''CONNECT''), req_headers = []\<rparr>"
  have w: "isWatchedDomain (config example_server)
             (String_split (or_default (req_url ?watched) []) (str '':'') ! 0)"
    by (simp only: IncomingMessage.simps connect_hosts)
       (simp add: example_server_def isWatchedDomain_def DEFAULT_CONFIG_def String_includes_def)
  have nw: "\<not> isWatchedDomain (config example_server)
             (String_split (or_default (req_url ?other) []) (str '':'') ! 0)"
    by (simp only: IncomingMessage.simps connect_hosts)
       (simp add: example_server_def isWatchedDomain_def DEFAULT_CONFIG_def String_includes_def)
  have ca: "caCert (certManager example_server) \<noteq> None \<and> caKey (certManager example_server) \<noteq> None"
    by (simp add: example_server_def example_manager_def)
  from head_written_only_by_tunnel [of example_server ?watched "str ''t''" "PrivateKey 2" 2000
      "''xx''" "[(str ''t'', ''yy'')]"] w ca
  have "upstream_bytes (connect_then_data example_server (str ''t'') (PrivateKey 2) 2000
          ?watched ''xx'' [(str ''t'', ''yy'')]) = concat (map snd [(str ''t'', ''yy'')])"
    by blast
  moreover
  from head_written_only_by_tunnel [of example_server ?other "str ''t''" "PrivateKey 2" 2000
      "''xx''" "[(str ''t'', ''yy'')]"] nw
  have "upstream_bytes (connect_then_data example_server (str ''t'') (PrivateKey 2) 2000
          ?other ''xx'' [(str ''t'', ''yy'')]) = ''xx'' @ concat (map snd [(str ''t'', ''yy'')])"
    by blast
  ultimately show ?thesis by simp
qed

end
